theory Spec2Isabelle
  imports Complex_Main "HOL-Library.Log_Nat" "HOL-Library.Word"
begin

section \<open>JavaScript primitives used by the sources\<close>

text \<open>
  Strings are lists of 8-bit characters: the data URLs, MIME types and messages the
  sources handle are ASCII. Numbers that index arrays are integers.
\<close>

text \<open>
  \<^verbatim>\<open>xs.slice(0, e)\<close>: a negative end counts from the back, an end beyond the length
  stops at the length.
\<close>

definition slice0 :: "'a list \<Rightarrow> int \<Rightarrow> 'a list" where
  "slice0 xs e =
     (let len = int (length xs);
          k = (if e < 0 then max (len + e) 0 else min e len)
      in take (nat k) xs)"

text \<open>\<^verbatim>\<open>xs[i]\<close>: \<open>None\<close> is \<^verbatim>\<open>undefined\<close>, the value of a read outside the array.\<close>

definition jsIndex :: "'a list \<Rightarrow> int \<Rightarrow> 'a option" where
  "jsIndex xs i = (if 0 \<le> i \<and> i < int (length xs) then Some (xs ! nat i) else None)"

text \<open>
  The characters \<^verbatim>\<open>String.prototype.trim\<close> removes, among the 8-bit ones: TAB, LF, VT,
  FF, CR, space and the no-break space. \<^verbatim>\<open>!s.trim()\<close> holds when \<open>s\<close> has no other
  character.
\<close>

definition whiteSpace :: "char \<Rightarrow> bool" where
  "whiteSpace c =
     (c = CHR 0x09 \<or> c = CHR 0x0A \<or> c = CHR 0x0B \<or> c = CHR 0x0C \<or> c = CHR 0x0D
      \<or> c = CHR 0x20 \<or> c = CHR 0xA0)"

definition trimIsEmpty :: "string \<Rightarrow> bool" where
  "trimIsEmpty s = list_all whiteSpace s"

text \<open>
  A thrown value: an instance of \<^verbatim>\<open>Error\<close> with its message, or any other value, of
  which only a \<^verbatim>\<open>message\<close> property of type string (if it has one) is ever read.
\<close>

datatype thrown = Error string | NonError "string option"

text \<open>\<^verbatim>\<open>err instanceof Error ? err.message : dflt\<close>\<close>

definition errorText :: "string \<Rightarrow> thrown \<Rightarrow> string" where
  "errorText dflt t = (case t of Error m \<Rightarrow> m | NonError _ \<Rightarrow> dflt)"

text \<open>\<^verbatim>\<open>s.split(sep)\<close> for a one-character separator: always at least one piece.\<close>

fun jsSplit :: "char \<Rightarrow> string \<Rightarrow> string list" where
  "jsSplit sep [] = [[]]"
| "jsSplit sep (c # cs) =
     (if c = sep then [] # jsSplit sep cs
      else (case jsSplit sep cs of [] \<Rightarrow> [[c]] | p # ps \<Rightarrow> (c # p) # ps))"

definition startsWith :: "string \<Rightarrow> string \<Rightarrow> bool" where
  "startsWith s p = (take (length p) s = p)"

text \<open>A text between double quotes.\<close>

definition quoted :: "string \<Rightarrow> string" where
  "quoted s = CHR 0x22 # s @ [CHR 0x22]"

text \<open>A value inside a template literal: \<^verbatim>\<open>undefined\<close> prints as the word.\<close>

definition template :: "string option \<Rightarrow> string" where
  "template v = (case v of None \<Rightarrow> ''undefined'' | Some s \<Rightarrow> s)"

text \<open>
  Numbers that are not indices are IEEE doubles. A finite double is modelled by the
  rational number it denotes; \<open>None\<close> is a value that is not finite (an infinity or NaN).
  \<open>toDouble\<close> rounds a rational to the nearest double, a tie to the one with the even
  significand: the significand has 53 bits, the exponent of a normal number is at least
  \<open>-1022\<close>, below that the doubles are the multiples of \<open>2 powi -1074\<close>, and a rounded
  value of \<open>2 ^ 1024\<close> or more is an infinity. \<open>exponent q\<close> is the integer \<open>e\<close> with
  \<open>2 powi e \<le> q < 2 powi (e + 1)\<close> for a positive \<open>q\<close>, and \<open>ulp q\<close> the distance between
  the doubles around \<open>q\<close>.
\<close>

definition roundHalfEven :: "rat \<Rightarrow> int" where
  "roundHalfEven x =
     (let f = \<lfloor>x\<rfloor>; d = x - of_int f
      in if d < 1 / 2 then f else if 1 / 2 < d then f + 1 else if even f then f else f + 1)"

definition exponent :: "rat \<Rightarrow> int" where
  "exponent q = (if 1 \<le> q then bitlen \<lfloor>q\<rfloor> - 1 else - bitlen (\<lceil>1 / q\<rceil> - 1))"

definition ulp :: "rat \<Rightarrow> rat" where
  "ulp q = 2 powi (max (exponent q) (- 1022) - 52)"

definition toDouble :: "rat \<Rightarrow> rat option" where
  "toDouble q =
     (if q = 0 then Some 0
      else (let r = of_int (roundHalfEven (\<bar>q\<bar> / ulp \<bar>q\<bar>)) * ulp \<bar>q\<bar>
            in if 2 ^ 1024 \<le> r then None else Some (sgn q * r)))"

text \<open>
  The operators \<^verbatim>\<open>*\<close>, \<^verbatim>\<open>-\<close> and \<^verbatim>\<open>/\<close> on finite doubles: the exact result, rounded.
  A division by zero gives an infinity or NaN.
\<close>

definition jsMul :: "rat \<Rightarrow> rat \<Rightarrow> rat option" where
  "jsMul a b = toDouble (a * b)"

definition jsSub :: "rat \<Rightarrow> rat \<Rightarrow> rat option" where
  "jsSub a b = toDouble (a - b)"

definition jsDiv :: "rat \<Rightarrow> rat \<Rightarrow> rat option" where
  "jsDiv a b = (if b = 0 then None else toDouble (a / b))"

text \<open>The values \<^verbatim>\<open>JSON.parse\<close> returns; an object is the list of its properties.\<close>

datatype json =
  JNull | JBool bool | JNumber rat | JString string | JArray "json list"
  | JObject "(string \<times> json) list"

text \<open>
  \<^verbatim>\<open>v?.key\<close> for the keys \<^verbatim>\<open>error\<close> and \<^verbatim>\<open>code\<close>: \<^verbatim>\<open>undefined\<close> (\<open>None\<close>) on
  \<^verbatim>\<open>undefined\<close>, \<^verbatim>\<open>null\<close>, and on every value that is not an object with that property.
\<close>

fun optProp :: "json option \<Rightarrow> string \<Rightarrow> json option" where
  "optProp (Some (JObject kvs)) key = map_of kvs key"
| "optProp _ key = None"

section \<open>components/ImageEditor: normalizeImage\<close>

text \<open>What was drawn on the canvas: its size, the fill, and the image rectangle
  \<open>(x, y, width, height)\<close> of \<^verbatim>\<open>drawImage\<close>, which draws nothing (\<open>None\<close>) when an
  argument is not finite.\<close>

record canvas =
  canvas_width :: nat
  canvas_height :: nat
  fillStyle :: string
  fillRect :: "rat \<times> rat \<times> rat \<times> rat"
  drawImage :: "(rat \<times> rat \<times> rat \<times> rat) option"

definition MAX_DIMENSION :: nat where
  "MAX_DIMENSION = 1024"

text \<open>\<^verbatim>\<open>(side * MAX_DIMENSION) / other\<close>, the scaled length of the shorter side.\<close>

definition scaleTo :: "rat \<Rightarrow> rat \<Rightarrow> rat option" where
  "scaleTo side other =
     Option.bind (jsMul side (rat_of_nat MAX_DIMENSION)) (\<lambda>p. jsDiv p other)"

text \<open>\<^verbatim>\<open>(MAX_DIMENSION - new) / 2\<close>, the offset of a side of length \<open>new\<close>.\<close>

definition centre :: "rat \<Rightarrow> rat option" where
  "centre new = Option.bind (jsSub (rat_of_nat MAX_DIMENSION) new) (\<lambda>d. jsDiv d 2)"

text \<open>The body of \<^verbatim>\<open>img.onload\<close> from \<^verbatim>\<open>MAX_DIMENSION\<close> to \<^verbatim>\<open>drawImage\<close>, for an image
  of \<open>img_width\<close> by \<open>img_height\<close> pixels; \<^verbatim>\<open>img.width\<close> and \<^verbatim>\<open>img.height\<close> are
  unsigned 32-bit integers (\<^verbatim>\<open>unsigned long\<close>).\<close>

definition drawNormalized :: "32 word \<Rightarrow> 32 word \<Rightarrow> canvas" where
  "drawNormalized img_width img_height =
     (let M = rat_of_nat MAX_DIMENSION;
          W = rat_of_int (uint img_width);
          H = rat_of_int (uint img_height);
          dims =
            (if img_width > img_height
             then map_option (\<lambda>newHeight. (M, newHeight)) (scaleTo H W)
             else map_option (\<lambda>newWidth. (newWidth, M)) (scaleTo W H))
      in \<lparr>canvas_width = MAX_DIMENSION, canvas_height = MAX_DIMENSION,
          fillStyle = ''black'', fillRect = (0, 0, M, M),
          drawImage =
            Option.bind dims
              (\<lambda>(newWidth, newHeight).
                 Option.bind (centre newWidth)
                   (\<lambda>x. Option.bind (centre newHeight)
                      (\<lambda>y. Some (x, y, newWidth, newHeight))))\<rparr>)"

text \<open>
  What the browser contributes to \<^verbatim>\<open>normalizeImage\<close>: what the \<^verbatim>\<open>FileReader\<close> ends with
  (\<^verbatim>\<open>onerror\<close>, or \<^verbatim>\<open>onload\<close> with a result that may be missing), the pixel size of the
  image decoded from that result (\<open>None\<close>: \<^verbatim>\<open>img.onerror\<close>), whether a 2d context is
  available, and the encoder \<^verbatim>\<open>canvas.toDataURL(type)\<close>.
\<close>

record browser =
  readFile :: "thrown + string option"
  loadImage :: "string \<Rightarrow> (32 word \<times> 32 word) option"
  hasContext2d :: bool
  toDataURL :: "canvas \<Rightarrow> string \<Rightarrow> string"

definition normalizeImage :: "browser \<Rightarrow> thrown + string" where
  "normalizeImage b =
     (case readFile b of
        Inl err \<Rightarrow> Inl err
      | Inr None \<Rightarrow> Inl (Error ''FileReader did not return a result'')
      | Inr (Some result) \<Rightarrow>
          if result = [] then Inl (Error ''FileReader did not return a result'')
          else (case loadImage b result of
                  None \<Rightarrow> Inl (Error ''Image failed to load'')
                | Some (w, h) \<Rightarrow>
                    if \<not> hasContext2d b then Inl (Error ''Could not get canvas context'')
                    else Inr (toDataURL b (drawNormalized w h) ''image/png'')))"

section \<open>services/geminiService\<close>

subsection \<open>dataUrlToParts\<close>

text \<open>
  \<^verbatim>\<open>header.match(/:(.*?);/)\<close>. The dot matches every character but a line terminator
  (LF and CR among the 8-bit ones). \<open>lazyToSemicolon\<close> is the attempt \<^verbatim>\<open>(.*?);\<close> right
  after a colon: the group ends at the first semicolon, and the attempt fails at a line
  terminator or at the end. \<open>matchMimeType\<close> tries the colons from left to right and
  returns the first group found (\<open>None\<close>: \<^verbatim>\<open>null\<close>).
\<close>

definition lineTerminator :: "char \<Rightarrow> bool" where
  "lineTerminator c = (c = CHR 0x0A \<or> c = CHR 0x0D)"

fun lazyToSemicolon :: "string \<Rightarrow> string option" where
  "lazyToSemicolon [] = None"
| "lazyToSemicolon (c # cs) =
     (if c = CHR '';'' then Some []
      else if lineTerminator c then None
      else map_option ((#) c) (lazyToSemicolon cs))"

fun matchMimeType :: "string \<Rightarrow> string option" where
  "matchMimeType [] = None"
| "matchMimeType (c # cs) =
     (if c = CHR '':''
      then (case lazyToSemicolon cs of Some g \<Rightarrow> Some g | None \<Rightarrow> matchMimeType cs)
      else matchMimeType cs)"

text \<open>The result is the pair \<open>(base64Data, mimeType)\<close>.\<close>

definition dataUrlToParts :: "string \<Rightarrow> thrown + (string \<times> string)" where
  "dataUrlToParts dataUrl =
     (case jsSplit CHR '','' dataUrl of
        [header, base64Data] \<Rightarrow>
          (case matchMimeType header of
             None \<Rightarrow> Inl (Error ''Could not extract MIME type from data URL'')
           | Some m \<Rightarrow>
               if m = [] then Inl (Error ''Could not extract MIME type from data URL'')
               else Inr (base64Data, m))
      | _ \<Rightarrow> Inl (Error ''Invalid data URL format''))"

text \<open>The template \<^verbatim>\<open>data:${newMimeType};base64,${newImageBase64}\<close>.\<close>

definition dataUrl :: "string \<Rightarrow> string \<Rightarrow> string" where
  "dataUrl m b = ''data:'' @ m @ '';base64,'' @ b"

subsection \<open>The request and the response of the generation call\<close>

text \<open>The SDK's types, every field optional: a blob, a part, a content, a candidate.\<close>

datatype blob = Blob (data: "string option") (mimeType: "string option")

datatype part = Part (inlineData: "blob option") (partText: "string option")

datatype content = Content (parts: "part list option")

datatype candidate = Candidate (content: "content option")

datatype response = Response (candidates: "candidate list option")

record request =
  model :: string
  contents :: "part list"
  responseModalities :: "string list"

text \<open>A \<^verbatim>\<open>File\<close>: what a \<^verbatim>\<open>FileReader\<close> reads it as (or fails with), and its type.\<close>

datatype fileObj = File (readAsDataURL: "thrown + string") (fileType: string)

datatype image = ImageFile fileObj | ImageString string

text \<open>
  What is outside the repository: fetching a blob URL into a \<^verbatim>\<open>File\<close>, the SDK call
  \<^verbatim>\<open>ai.models.generateContent\<close>, and \<^verbatim>\<open>JSON.parse\<close>.
\<close>

record env =
  fetchBlob :: "string \<Rightarrow> thrown + fileObj"
  generateContent :: "request \<Rightarrow> thrown + response"
  JSON_parse :: "string \<Rightarrow> thrown + json"

text \<open>\<^verbatim>\<open>resolve(result.split(',')[1])\<close>: \<^verbatim>\<open>undefined\<close> when the result has no comma.\<close>

definition fileToBase64 :: "fileObj \<Rightarrow> thrown + string option" where
  "fileToBase64 f =
     (case readAsDataURL f of
        Inl err \<Rightarrow> Inl err
      | Inr result \<Rightarrow> Inr (jsIndex (jsSplit CHR '','' result) 1))"

text \<open>The first block of \<^verbatim>\<open>editImageWithGemini\<close>: \<open>(base64Data, mimeType)\<close> of the image.\<close>

definition imageData :: "env \<Rightarrow> image \<Rightarrow> thrown + (string option \<times> string)" where
  "imageData e img =
     (case img of
        ImageString s \<Rightarrow>
          if startsWith s ''blob:''
          then (case fetchBlob e s of
                  Inl err \<Rightarrow> Inl err
                | Inr f \<Rightarrow>
                    (case fileToBase64 f of
                       Inl err \<Rightarrow> Inl err
                     | Inr base64Data \<Rightarrow> Inr (base64Data, fileType f)))
          else (case dataUrlToParts s of
                  Inl err \<Rightarrow> Inl err
                | Inr (base64Data, m) \<Rightarrow> Inr (Some base64Data, m))
      | ImageFile f \<Rightarrow>
          (case fileToBase64 f of
             Inl err \<Rightarrow> Inl err
           | Inr base64Data \<Rightarrow> Inr (base64Data, fileType f)))"

definition buildRequest :: "string option \<Rightarrow> string \<Rightarrow> string \<Rightarrow> request" where
  "buildRequest base64Data m p =
     \<lparr>model = ''gemini-2.5-flash-image-preview'',
      contents = [Part (Some (Blob base64Data (Some m))) None, Part None (Some p)],
      responseModalities = [''IMAGE'', ''TEXT'']\<rparr>"

subsection \<open>The errors thrown, under the names the specification gives them\<close>

definition FormatError_split :: thrown where
  "FormatError_split = Error ''Invalid data URL format''"

definition FormatError_mime :: thrown where
  "FormatError_mime = Error ''Could not extract MIME type from data URL''"

definition EmptyResponseError :: thrown where
  "EmptyResponseError = Error ''No valid candidates returned from the API.''"

definition RefusedEditError :: "string \<Rightarrow> thrown" where
  "RefusedEditError newText =
     Error (''The AI could not edit the image: '' @ quoted newText)"

definition NoImageReturnedError :: thrown where
  "NoImageReturnedError =
     Error ''The AI did not return an image. Please try a different prompt.''"

definition QuotaExceededError :: thrown where
  "QuotaExceededError =
     Error ''You've exceeded your API quota. Please check your plan and billing details.''"

definition TransportError :: thrown where
  "TransportError =
     Error ''An error occurred while communicating with the AI. Please try again later.''"

subsection \<open>Reading the response\<close>

text \<open>What \<^verbatim>\<open>editImageWithGemini\<close> resolves with: \<^verbatim>\<open>{ imageUrl, text }\<close>.\<close>

record edit_result =
  imageUrl :: string
  text' :: string

text \<open>
  The loop over the parts, on \<open>(newImageBase64, newText, newMimeType)\<close>. An
  \<^verbatim>\<open>inlineData\<close> overwrites both the image and the media type with the part's fields,
  present or not; otherwise a non-empty \<^verbatim>\<open>text\<close> is appended.
\<close>

fun scanParts ::
  "part list \<Rightarrow> string option \<times> string \<times> string option
     \<Rightarrow> string option \<times> string \<times> string option" where
  "scanParts [] acc = acc"
| "scanParts (p # ps) (newImageBase64, newText, newMimeType) =
     (case inlineData p of
        Some b \<Rightarrow> scanParts ps (data b, newText, mimeType b)
      | None \<Rightarrow>
          (case partText p of
             Some t \<Rightarrow>
               if t \<noteq> [] then scanParts ps (newImageBase64, newText @ t, newMimeType)
               else scanParts ps (newImageBase64, newText, newMimeType)
           | None \<Rightarrow> scanParts ps (newImageBase64, newText, newMimeType)))"

text \<open>The two throws under \<^verbatim>\<open>if (!newImageBase64)\<close>.\<close>

definition noImage :: "string \<Rightarrow> thrown" where
  "noImage newText = (if newText \<noteq> [] then RefusedEditError newText else NoImageReturnedError)"

text \<open>
  From \<^verbatim>\<open>let newImageBase64 = null\<close> to the \<^verbatim>\<open>return\<close>; \<open>m\<close> is the request's media
  type, the start value of \<^verbatim>\<open>newMimeType\<close>. A missing, \<^verbatim>\<open>undefined\<close> or empty
  \<^verbatim>\<open>newImageBase64\<close> is falsy.
\<close>

definition readResponse :: "string \<Rightarrow> response \<Rightarrow> thrown + edit_result" where
  "readResponse m r =
     (case candidates r of
        None \<Rightarrow> Inl EmptyResponseError
      | Some [] \<Rightarrow> Inl EmptyResponseError
      | Some (c # _) \<Rightarrow>
          (case content c of
             None \<Rightarrow> Inl EmptyResponseError
           | Some ct \<Rightarrow>
               (case parts ct of
                  None \<Rightarrow> Inl EmptyResponseError
                | Some ps \<Rightarrow>
                    (case scanParts ps (None, [], Some m) of
                       (newImageBase64, newText, newMimeType) \<Rightarrow>
                         (case newImageBase64 of
                            None \<Rightarrow> Inl (noImage newText)
                          | Some b \<Rightarrow>
                              if b = [] then Inl (noImage newText)
                              else Inr \<lparr>imageUrl = dataUrl (template newMimeType) b,
                                        text' = newText\<rparr>)))))"

subsection \<open>The handler around the generation call (the variant with a try/catch)\<close>

text \<open>
  The inner \<^verbatim>\<open>try\<close> block: \<open>Inl\<close> is what it throws (the \<^verbatim>\<open>SyntaxError\<close> of
  \<^verbatim>\<open>JSON.parse\<close>, or the quota error), \<open>Inr ()\<close> is reaching its end.
\<close>

definition quotaCheck :: "(string \<Rightarrow> thrown + json) \<Rightarrow> thrown \<Rightarrow> thrown + unit" where
  "quotaCheck parse err =
     (case (case err of Error msg \<Rightarrow> Some msg | NonError msg \<Rightarrow> msg) of
        None \<Rightarrow> Inr ()
      | Some msg \<Rightarrow>
          (case parse msg of
             Inl syntaxError \<Rightarrow> Inl syntaxError
           | Inr errorDetails \<Rightarrow>
               if optProp (optProp (Some errorDetails) ''error'') ''code'' = Some (JNumber 429)
               then Inl QuotaExceededError
               else Inr ()))"

text \<open>
  The outer \<^verbatim>\<open>catch\<close>: the inner \<^verbatim>\<open>try\<close> with its \<^verbatim>\<open>catch (e) { }\<close>, which ends
  normally whatever the block threw, and then the \<^verbatim>\<open>throw\<close> of the generic error.
\<close>

definition apiErrorHandler :: "(string \<Rightarrow> thrown + json) \<Rightarrow> thrown \<Rightarrow> thrown" where
  "apiErrorHandler parse err =
     (case (case quotaCheck parse err of Inl e \<Rightarrow> () | Inr u \<Rightarrow> u) of
        () \<Rightarrow> TransportError)"

subsection \<open>editImageWithGemini\<close>

text \<open>\<^verbatim>\<open>services/geminiService.ts\<close>: a failure of the call propagates as it is.\<close>

definition editImageWithGemini :: "env \<Rightarrow> image \<Rightarrow> string \<Rightarrow> thrown + edit_result" where
  "editImageWithGemini e img p =
     (case imageData e img of
        Inl err \<Rightarrow> Inl err
      | Inr (base64Data, m) \<Rightarrow>
          (case generateContent e (buildRequest base64Data m p) of
             Inl err \<Rightarrow> Inl err
           | Inr r \<Rightarrow> readResponse m r))"

text \<open>The second copy of the service, with the call inside \<^verbatim>\<open>try { } catch (error)\<close>.\<close>

definition editImageWithGemini_caught ::
  "env \<Rightarrow> image \<Rightarrow> string \<Rightarrow> thrown + edit_result" where
  "editImageWithGemini_caught e img p =
     (case imageData e img of
        Inl err \<Rightarrow> Inl err
      | Inr (base64Data, m) \<Rightarrow>
          (case generateContent e (buildRequest base64Data m p) of
             Inl err \<Rightarrow> Inl (apiErrorHandler (JSON_parse e) err)
           | Inr r \<Rightarrow> readResponse m r))"

section \<open>components/ImageEditor: the editor's state and its handlers\<close>

text \<open>The six \<^verbatim>\<open>useState\<close> cells of \<^verbatim>\<open>ImageEditor\<close>, with their initial values.\<close>

record state =
  history :: "string list"
  currentIndex :: int
  prompt :: string
  isLoading :: bool
  error :: "string option"
  loadingMessage :: string

definition initial :: state where
  "initial =
     \<lparr>history = [], currentIndex = - 1, prompt = [], isLoading = False, error = None,
      loadingMessage = []\<rparr>"

text \<open>\<^verbatim>\<open>const currentImageUrl = history[currentIndex]\<close>\<close>

definition currentImageUrl :: "state \<Rightarrow> string option" where
  "currentImageUrl s = jsIndex (history s) (currentIndex s)"

subsection \<open>processImage (the effect run when the \<^verbatim>\<open>imageFile\<close> prop changes)\<close>

text \<open>The part before \<^verbatim>\<open>await normalizeImage(imageFile)\<close>.\<close>

definition processImage_begin :: "state \<Rightarrow> state" where
  "processImage_begin s =
     s\<lparr>history := [], currentIndex := - 1, isLoading := True,
       loadingMessage := ''Preparing your image...'', error := None\<rparr>"

text \<open>
  The part after the \<^verbatim>\<open>await\<close>, run on the state of that later moment; \<open>r\<close> is what
  \<^verbatim>\<open>normalizeImage\<close> settled with.
\<close>

definition processImage_resume :: "thrown + string \<Rightarrow> state \<Rightarrow> state" where
  "processImage_resume r s =
     (case r of
        Inr normalizedImageUrl \<Rightarrow> s\<lparr>history := [normalizedImageUrl], currentIndex := 0\<rparr>
      | Inl err \<Rightarrow> s\<lparr>error := Some (errorText ''Failed to process image.'' err)\<rparr>)
     \<lparr>isLoading := False\<rparr>"

text \<open>\<^verbatim>\<open>processImage\<close> with nothing else happening while it waits.\<close>

definition processImage :: "state \<Rightarrow> thrown + string \<Rightarrow> state" where
  "processImage s r = processImage_resume r (processImage_begin s)"

subsection \<open>handleEdit\<close>

text \<open>
  What the continuation of \<^verbatim>\<open>handleEdit\<close> after its \<^verbatim>\<open>await\<close> still reads: the
  \<^verbatim>\<open>history\<close>, \<^verbatim>\<open>currentIndex\<close>, \<^verbatim>\<open>currentImageUrl\<close> and \<^verbatim>\<open>prompt\<close> constants of the
  render in which the handler was created.
\<close>

record edit_closure =
  c_history :: "string list"
  c_currentIndex :: int
  c_currentImageUrl :: string
  c_prompt :: string

text \<open>
  The part before the \<^verbatim>\<open>await\<close>: the guard
  \<^verbatim>\<open>if (!prompt.trim() || !currentImageUrl)\<close>, where an \<^verbatim>\<open>undefined\<close> and an empty
  \<^verbatim>\<open>currentImageUrl\<close> are both falsy, then the loading flags. The second component is
  the pending request, if one was started.
\<close>

definition handleEdit_begin :: "state \<Rightarrow> state \<times> edit_closure option" where
  "handleEdit_begin s =
     (case currentImageUrl s of
        None \<Rightarrow> (s\<lparr>error := Some ''Please enter an editing instruction.''\<rparr>, None)
      | Some u \<Rightarrow>
          if trimIsEmpty (prompt s) \<or> u = []
          then (s\<lparr>error := Some ''Please enter an editing instruction.''\<rparr>, None)
          else (s\<lparr>isLoading := True, loadingMessage := ''Photon is working its magic...'',
                   error := None\<rparr>,
                Some \<lparr>c_history = history s, c_currentIndex = currentIndex s,
                      c_currentImageUrl = u, c_prompt = prompt s\<rparr>))"

text \<open>
  The three statements after a successful \<^verbatim>\<open>await\<close>:
  \<^verbatim>\<open>newHistory = history.slice(0, currentIndex + 1)\<close>,
  \<^verbatim>\<open>setHistory([...newHistory, imageUrl])\<close>, \<^verbatim>\<open>setCurrentIndex(newHistory.length)\<close>,
  \<^verbatim>\<open>setPrompt('')\<close>, for the captured \<open>h\<close> and \<open>i\<close>.
\<close>

definition commitCaptured :: "string list \<Rightarrow> int \<Rightarrow> string \<Rightarrow> state \<Rightarrow> state" where
  "commitCaptured h i newImage s =
     (let newHistory = slice0 h (i + 1)
      in s\<lparr>history := newHistory @ [newImage], currentIndex := int (length newHistory),
           prompt := []\<rparr>)"

text \<open>The \<^verbatim>\<open>try\<close> body after the \<^verbatim>\<open>await\<close>, the \<^verbatim>\<open>catch\<close> and the \<^verbatim>\<open>finally\<close>.\<close>

definition handleEdit_resume :: "edit_closure \<Rightarrow> thrown + edit_result \<Rightarrow> state \<Rightarrow> state" where
  "handleEdit_resume k r s =
     (case r of
        Inr res \<Rightarrow> commitCaptured (c_history k) (c_currentIndex k) (imageUrl res) s
      | Inl err \<Rightarrow> s\<lparr>error := Some (errorText ''An unknown error occurred.'' err)\<rparr>)
     \<lparr>isLoading := False\<rparr>"

text \<open>
  \<^verbatim>\<open>handleEdit\<close> with nothing else happening while it waits; \<open>editImage\<close> is the
  imported \<^verbatim>\<open>editImageWithGemini\<close>.
\<close>

definition handleEdit :: "(image \<Rightarrow> string \<Rightarrow> thrown + edit_result) \<Rightarrow> state \<Rightarrow> state" where
  "handleEdit editImage s =
     (case handleEdit_begin s of
        (s', None) \<Rightarrow> s'
      | (s', Some k) \<Rightarrow>
          handleEdit_resume k (editImage (ImageString (c_currentImageUrl k)) (c_prompt k)) s')"

text \<open>An edit request that ends without a new image: refused by the guard, or thrown.\<close>

definition editFails :: "(image \<Rightarrow> string \<Rightarrow> thrown + edit_result) \<Rightarrow> state \<Rightarrow> bool" where
  "editFails editImage s =
     (case handleEdit_begin s of
        (s', None) \<Rightarrow> True
      | (s', Some k) \<Rightarrow> isl (editImage (ImageString (c_currentImageUrl k)) (c_prompt k)))"

subsection \<open>The prompt input\<close>

text \<open>\<^verbatim>\<open>onChange\<close>: \<^verbatim>\<open>setPrompt(e.target.value); if (error) setError(null)\<close>.\<close>

definition onChange :: "string \<Rightarrow> state \<Rightarrow> state" where
  "onChange v s =
     (case error s of
        None \<Rightarrow> s\<lparr>prompt := v\<rparr>
      | Some m \<Rightarrow> if m = [] then s\<lparr>prompt := v\<rparr> else s\<lparr>prompt := v, error := None\<rparr>)"

subsection \<open>handleUndo, handleRedo\<close>

definition handleUndo :: "state \<Rightarrow> state" where
  "handleUndo s = (if currentIndex s > 0 then s\<lparr>currentIndex := currentIndex s - 1\<rparr> else s)"

definition handleRedo :: "state \<Rightarrow> state" where
  "handleRedo s =
     (if currentIndex s < int (length (history s)) - 1
      then s\<lparr>currentIndex := currentIndex s + 1\<rparr> else s)"

subsection \<open>The history controller of the specification, as the handlers implement it\<close>

text \<open>\<open>reset\<close>: a new image whose normalisation succeeds.\<close>

definition reset :: "state \<Rightarrow> string \<Rightarrow> state" where
  "reset s initialImage = processImage s (Inr initialImage)"

text \<open>\<open>commit\<close>: the success path of \<^verbatim>\<open>handleEdit\<close> with no event in between.\<close>

definition commit :: "state \<Rightarrow> string \<Rightarrow> state" where
  "commit s newImage = commitCaptured (history s) (currentIndex s) newImage s"

datatype op = Reset string | Commit string | Undo | Redo

fun apply_op :: "state \<Rightarrow> op \<Rightarrow> state" where
  "apply_op s (Reset i) = reset s i"
| "apply_op s (Commit i) = commit s i"
| "apply_op s Undo = handleUndo s"
| "apply_op s Redo = handleRedo s"

definition run :: "op list \<Rightarrow> state" where
  "run ops = foldl apply_op initial ops"

text \<open>The cursor is a valid index, or the history is empty and the cursor is \<open>-1\<close>.\<close>

definition cursor_ok :: "state \<Rightarrow> bool" where
  "cursor_ok s =
     ((history s = [] \<and> currentIndex s = - 1)
      \<or> (0 \<le> currentIndex s \<and> currentIndex s < int (length (history s))))"

section \<open>The specification's view of a response\<close>

text \<open>The content parts of a response: those of its first candidate, when the guard
  of the loop finds them.\<close>

definition contentParts :: "response \<Rightarrow> part list option" where
  "contentParts r =
     (case candidates r of
        None \<Rightarrow> None
      | Some [] \<Rightarrow> None
      | Some (c # _) \<Rightarrow> (case content c of None \<Rightarrow> None | Some ct \<Rightarrow> parts ct))"

text \<open>An inline-image part is a part with \<^verbatim>\<open>inlineData\<close>; the last one in part order.\<close>

definition lastInlineData :: "part list \<Rightarrow> blob option" where
  "lastInlineData ps =
     (case List.map_filter inlineData ps of [] \<Rightarrow> None | b # bs \<Rightarrow> Some (last (b # bs)))"

text \<open>A text part is a part without \<^verbatim>\<open>inlineData\<close> that has a \<^verbatim>\<open>text\<close>; their texts
  in part order.\<close>

definition textParts :: "part list \<Rightarrow> string list" where
  "textParts ps =
     concat (map (\<lambda>p. case inlineData p of
                          Some b \<Rightarrow> []
                        | None \<Rightarrow> (case partText p of None \<Rightarrow> [] | Some t \<Rightarrow> [t])) ps)"

section \<open>Sample inputs\<close>

text \<open>The JSON text of an object whose \<^verbatim>\<open>error\<close> property is an object with the
  \<^verbatim>\<open>code\<close> 429, written without spaces, and the value \<^verbatim>\<open>JSON.parse\<close> gives for it.\<close>

definition quotaBodyText :: string where
  "quotaBodyText = ''{'' @ quoted ''error'' @ '':{'' @ quoted ''code'' @ '':429}}''"

definition quotaBody :: json where
  "quotaBody = JObject [(''error'', JObject [(''code'', JNumber 429)])]"

text \<open>An environment whose generation call throws an error with that message, and whose
  \<^verbatim>\<open>JSON.parse\<close> is right on that message and rejects every other text.\<close>

definition quotaEnv :: env where
  "quotaEnv =
     \<lparr>fetchBlob = (\<lambda>url. Inl (Error ''Failed to fetch'')),
      generateContent = (\<lambda>req. Inl (Error quotaBodyText)),
      JSON_parse =
        (\<lambda>s. if s = quotaBodyText then Inr quotaBody else Inl (Error ''SyntaxError''))\<rparr>"

text \<open>An environment whose generation call answers with the given parts.\<close>

definition answering :: "part list \<Rightarrow> env" where
  "answering ps =
     \<lparr>fetchBlob = (\<lambda>url. Inl (Error ''Failed to fetch'')),
      generateContent = (\<lambda>req. Inr (Response (Some [Candidate (Some (Content (Some ps)))]))),
      JSON_parse = (\<lambda>s. Inl (Error ''SyntaxError''))\<rparr>"

text \<open>
  A run in which a new image arrives while an edit is in flight: the first image is
  loaded and a prompt typed (\<open>editing\<close>), the edit is started (\<open>pendingEdit\<close> is what
  its continuation holds), the \<^verbatim>\<open>imageFile\<close> prop changes and the new image is
  normalised (\<open>afterReset\<close>), and then the edit settles with an image (\<open>afterSettle\<close>).
\<close>

definition sampleOld :: string where
  "sampleOld = ''data:image/png;base64,OLD''"

definition sampleNew :: string where
  "sampleNew = ''data:image/png;base64,NEW''"

definition sampleEdited :: string where
  "sampleEdited = ''data:image/png;base64,EDITED''"

definition editing :: state where
  "editing = onChange ''add a hat'' (processImage initial (Inr sampleOld))"

definition pendingEdit :: edit_closure where
  "pendingEdit =
     \<lparr>c_history = [sampleOld], c_currentIndex = 0, c_currentImageUrl = sampleOld,
      c_prompt = ''add a hat''\<rparr>"

definition afterReset :: state where
  "afterReset = processImage (fst (handleEdit_begin editing)) (Inr sampleNew)"

definition afterSettle :: state where
  "afterSettle =
     handleEdit_resume pendingEdit (Inr \<lparr>imageUrl = sampleEdited, text' = []\<rparr>) afterReset"

section \<open>Properties of the history controller\<close>

lemma slice0_valid:
  "0 \<le> i \<Longrightarrow> i < int (length h) \<Longrightarrow> slice0 h (i + 1) = take (nat i + 1) h"
  by (simp add: slice0_def Let_def nat_add_distrib)

lemma history_reset: "history (reset s i) = [i]"
  by (simp add: reset_def processImage_def processImage_resume_def processImage_begin_def)

lemma currentIndex_reset: "currentIndex (reset s i) = 0"
  by (simp add: reset_def processImage_def processImage_resume_def processImage_begin_def)

lemma history_commit: "history (commit s i) = slice0 (history s) (currentIndex s + 1) @ [i]"
  by (simp add: commit_def commitCaptured_def Let_def)

lemma currentIndex_commit:
  "currentIndex (commit s i) = int (length (slice0 (history s) (currentIndex s + 1)))"
  by (simp add: commit_def commitCaptured_def Let_def)

lemma cursor_ok_apply_op: "cursor_ok s \<Longrightarrow> cursor_ok (apply_op s x)"
proof (cases x)
  case (Reset i)
  then show ?thesis
    by (simp add: cursor_ok_def history_reset currentIndex_reset)
next
  case (Commit i)
  then show ?thesis
    by (simp add: cursor_ok_def history_commit currentIndex_commit)
next
  case Undo
  assume "cursor_ok s"
  with Undo show ?thesis
    by (auto simp: cursor_ok_def handleUndo_def)
next
  case Redo
  assume "cursor_ok s"
  with Redo show ?thesis
    by (auto simp: cursor_ok_def handleRedo_def)
qed

lemma cursor_ok_foldl: "cursor_ok s \<Longrightarrow> cursor_ok (foldl apply_op s ops)"
  by (induction ops arbitrary: s) (simp_all add: cursor_ok_apply_op)

lemma cursor_ok_run: "cursor_ok (run ops)"
  unfolding run_def by (rule cursor_ok_foldl) (simp add: cursor_ok_def initial_def)

text \<open>The same bounds hold after every handler, also when an awaited call settles
  on a state other than the one it started from.\<close>

lemma cursor_ok_handlers:
  "cursor_ok (processImage_begin t)"
  "cursor_ok t \<Longrightarrow> cursor_ok (processImage_resume r t)"
  "cursor_ok t \<Longrightarrow> cursor_ok (fst (handleEdit_begin t))"
  "cursor_ok t \<Longrightarrow> cursor_ok (handleEdit_resume k r' t)"
  "cursor_ok t \<Longrightarrow> cursor_ok (onChange v t)"
  by (auto simp: cursor_ok_def processImage_begin_def processImage_resume_def
      handleEdit_begin_def handleEdit_resume_def commitCaptured_def onChange_def Let_def
      split: sum.splits option.splits)

text \<open>A successful \<^verbatim>\<open>handleEdit\<close> is a commit of the returned image.\<close>

lemma handleEdit_success_commits:
  assumes "handleEdit_begin s = (s', Some k)"
    and "editImage (ImageString (c_currentImageUrl k)) (c_prompt k) = Inr res"
  shows "history (handleEdit editImage s) = history (commit s (imageUrl res))
    \<and> currentIndex (handleEdit editImage s) = currentIndex (commit s (imageUrl res))"
proof -
  from assms(1) have "c_history k = history s" "c_currentIndex k = currentIndex s"
    by (auto simp: handleEdit_begin_def split: option.splits if_splits)
  with assms show ?thesis
    by (simp add: handleEdit_def handleEdit_resume_def commit_def commitCaptured_def Let_def)
qed

text \<open>
  C1. After \<open>reset I0\<close>, \<open>commit I1\<close>, \<open>commit I2\<close>, \<open>undo\<close>, \<open>commit I3\<close> the history is
  \<open>[I0, I1, I3]\<close> and the cursor is 2. In general a commit on a non-empty history whose
  cursor \<open>i\<close> is a valid index keeps the elements up to \<open>i\<close>, replaces everything after
  them by the one new element, and moves the cursor to \<open>i + 1\<close>.
\<close>

theorem commit_overwrites_redo_branch:
  "history (commit (handleUndo (commit (commit (reset s I0) I1) I2)) I3) = [I0, I1, I3]
   \<and> currentIndex (commit (handleUndo (commit (commit (reset s I0) I1) I2)) I3) = 2
   \<and> (history t \<noteq> [] \<and> 0 \<le> currentIndex t \<and> currentIndex t < int (length (history t))
        \<longrightarrow> history (commit t newImage) = take (nat (currentIndex t) + 1) (history t) @ [newImage]
          \<and> currentIndex (commit t newImage) = currentIndex t + 1)"
proof -
  let ?s1 = "commit (reset s I0) I1"
  have h1: "history ?s1 = [I0, I1]" and c1: "currentIndex ?s1 = 1"
    by (simp_all add: history_commit currentIndex_commit history_reset currentIndex_reset
        slice0_def Let_def)
  let ?s2 = "commit ?s1 I2"
  have h2: "history ?s2 = [I0, I1, I2]" and c2: "currentIndex ?s2 = 2"
    by (simp_all add: history_commit [of ?s1] currentIndex_commit [of ?s1] h1 c1 slice0_def
        Let_def)
  let ?s3 = "handleUndo ?s2"
  have h3: "history ?s3 = [I0, I1, I2]" and c3: "currentIndex ?s3 = 1"
    by (simp_all add: handleUndo_def h2 c2)
  have a: "history (commit ?s3 I3) = [I0, I1, I3]"
    by (simp add: history_commit [of ?s3] h3 c3 slice0_def Let_def)
  have b: "currentIndex (commit ?s3 I3) = 2"
    by (simp add: currentIndex_commit [of ?s3] h3 c3 slice0_def Let_def)
  have c: "history (commit t newImage) = take (nat (currentIndex t) + 1) (history t) @ [newImage]
      \<and> currentIndex (commit t newImage) = currentIndex t + 1"
    if "0 \<le> currentIndex t" "currentIndex t < int (length (history t))"
    using that by (simp add: history_commit currentIndex_commit slice0_valid)
  from a b c show ?thesis by blast
qed

theorem commit_overwrites_redo_branch_witness:
  "(let t = \<lparr>history = [''A'', ''B'', ''C''], currentIndex = 1, prompt = ''p'',
             isLoading = False, error = None, loadingMessage = []\<rparr>
    in (history t \<noteq> [] \<and> 0 \<le> currentIndex t \<and> currentIndex t < int (length (history t)))
       \<and> history (commit t ''D'') = [''A'', ''B'', ''D'']
       \<and> currentIndex (commit t ''D'') = 2)"
  using commit_overwrites_redo_branch
    [of initial "''I0''" "''I1''" "''I2''" "''I3''"
        "\<lparr>history = [''A'', ''B'', ''C''], currentIndex = 1, prompt = ''p'',
          isLoading = False, error = None, loadingMessage = []\<rparr>" "''D''"]
  by (simp add: Let_def)

text \<open>
  C2. After every sequence of reset, commit, undo and redo operations, a non-empty
  history has its cursor within \<open>0 \<le> cursor < length\<close>; an undo at cursor 0 and a redo
  at the last index change nothing.
\<close>

theorem cursor_in_bounds:
  "(history (run ops) \<noteq> []
      \<longrightarrow> 0 \<le> currentIndex (run ops) \<and> currentIndex (run ops) < int (length (history (run ops))))
   \<and> (currentIndex s = 0 \<longrightarrow> handleUndo s = s)
   \<and> (currentIndex s = int (length (history s)) - 1 \<longrightarrow> handleRedo s = s)"
  using cursor_ok_run [of ops] by (auto simp: cursor_ok_def handleUndo_def handleRedo_def)

theorem cursor_in_bounds_witness:
  "(let ops = [Reset ''I0'', Commit ''I1'', Commit ''I2'', Undo, Undo, Undo, Redo];
        s = run [Reset ''I0'', Commit ''I1'', Undo];
        t = run [Reset ''I0'', Commit ''I1'']
    in history (run ops) \<noteq> [] \<and> history (run ops) = [''I0'', ''I1'', ''I2'']
       \<and> currentIndex (run ops) = 1
       \<and> currentIndex s = 0 \<and> handleUndo s = s
       \<and> currentIndex t = int (length (history t)) - 1 \<and> handleRedo t = t)"
  using cursor_in_bounds
    [of "[Reset ''I0'', Commit ''I1'', Commit ''I2'', Undo, Undo, Undo, Redo]"
        "run [Reset ''I0'', Commit ''I1'', Undo]"]
    cursor_in_bounds
    [of "[]" "run [Reset ''I0'', Commit ''I1'']"]
  by (simp add: Let_def run_def reset_def commit_def commitCaptured_def processImage_def
      processImage_resume_def processImage_begin_def handleUndo_def handleRedo_def
      slice0_def initial_def)

section \<open>Properties of the rounding to doubles\<close>

lemma roundHalfEven_cases:
  "roundHalfEven x = \<lfloor>x\<rfloor> \<and> x - of_int \<lfloor>x\<rfloor> \<le> 1 / 2
   \<or> roundHalfEven x = \<lfloor>x\<rfloor> + 1 \<and> 1 / 2 \<le> x - of_int \<lfloor>x\<rfloor>"
  by (auto simp: roundHalfEven_def Let_def)

lemma roundHalfEven_of_int: "roundHalfEven (of_int n) = n"
  by (simp add: roundHalfEven_def)

lemma roundHalfEven_error: "\<bar>of_int (roundHalfEven x) - x\<bar> \<le> 1 / 2"
proof -
  have "of_int \<lfloor>x\<rfloor> \<le> x" "x < of_int \<lfloor>x\<rfloor> + 1" by linarith+
  with roundHalfEven_cases [of x] show ?thesis by auto
qed

lemma roundHalfEven_ge: "of_int n \<le> x \<Longrightarrow> n \<le> roundHalfEven x"
proof -
  assume "of_int n \<le> x"
  then have "n \<le> \<lfloor>x\<rfloor>" by (simp add: le_floor_iff)
  with roundHalfEven_cases [of x] show ?thesis by auto
qed

lemma roundHalfEven_le: "x \<le> of_int n \<Longrightarrow> roundHalfEven x \<le> n"
proof -
  assume le: "x \<le> of_int n"
  then have f: "\<lfloor>x\<rfloor> \<le> n" by (simp add: floor_le_iff) 
  show ?thesis
  proof (cases "x = of_int \<lfloor>x\<rfloor>")
    case True
    then have "roundHalfEven x = \<lfloor>x\<rfloor>"
      by (metis roundHalfEven_of_int)
    with f show ?thesis by simp
  next
    case False
    have "of_int \<lfloor>x\<rfloor> \<le> x" by linarith
    with False le have "of_int \<lfloor>x\<rfloor> < (of_int n :: rat)" by linarith
    then have "\<lfloor>x\<rfloor> < n" by simp
    with roundHalfEven_cases [of x] show ?thesis by auto
  qed
qed

lemma exponent_lower: "0 < q \<Longrightarrow> 2 powi (exponent q) \<le> q"
proof (cases "1 \<le> q")
  case True
  then have pos: "0 < \<lfloor>q\<rfloor>" by simp
  have nn: "0 \<le> bitlen \<lfloor>q\<rfloor> - 1"
    using pos by (simp add: bitlen_alt_def)
  from bitlen_bounds [OF pos] have "2 ^ nat (bitlen \<lfloor>q\<rfloor> - 1) \<le> \<lfloor>q\<rfloor>" by simp
  then have "(of_int (2 ^ nat (bitlen \<lfloor>q\<rfloor> - 1)) :: rat) \<le> of_int \<lfloor>q\<rfloor>"
    by (simp only: of_int_le_iff)
  also have "\<dots> \<le> q" by linarith
  finally show ?thesis
    using True nn by (simp add: exponent_def power_int_def)
next
  case False
  assume q: "0 < q"
  let ?n = "\<lceil>1 / q\<rceil> - 1"
  let ?k = "bitlen ?n"
  from False q have "1 < 1 / q" by simp
  then have n1: "0 < ?n" by (simp add: less_ceiling_iff) 
  from bitlen_bounds [OF n1] have "?n < 2 ^ nat ?k" by simp
  then have "\<lceil>1 / q\<rceil> \<le> 2 ^ nat ?k" by simp
  then have "1 / q \<le> of_int (2 ^ nat ?k)"
    by (simp only: ceiling_le_iff)
  then have "1 / q \<le> 2 ^ nat ?k" by simp
  then have "1 / 2 ^ nat ?k \<le> q"
    using q by (simp add: field_simps)
  moreover have "(2 :: rat) powi (- ?k) = 1 / 2 ^ nat ?k"
    using bitlen_nonneg [of ?n] by (simp add: power_int_minus_divide power_int_nonneg_exp)
  ultimately show ?thesis
    using False by (simp add: exponent_def)
qed

lemma pow2_mono: "a \<le> b \<Longrightarrow> (2 :: rat) powi a \<le> 2 powi b"
  by (rule power_int_increasing) simp_all

lemma pow2_pos: "0 < (2 :: rat) powi a"
  by (simp add: zero_less_power_int)

lemma exponent_upper:
  assumes "0 < q" "q \<le> 2 powi b"
  shows "exponent q \<le> b"
proof (rule ccontr)
  assume "\<not> exponent q \<le> b"
  then have "b + 1 \<le> exponent q" by simp
  then have "(2 :: rat) powi (b + 1) \<le> 2 powi exponent q" by (rule pow2_mono)
  also have "\<dots> \<le> q" using assms(1) by (rule exponent_lower)
  finally have "(2 :: rat) powi (b + 1) \<le> 2 powi b" using assms(2) by simp
  moreover have "(2 :: rat) powi (b + 1) = 2 * 2 powi b" by (simp add: power_int_add)
  ultimately show False using pow2_pos [of b] by simp
qed

lemma ulp_upper:
  assumes "0 < q" "q \<le> 2 powi b" "- 1022 \<le> b"
  shows "ulp q \<le> 2 powi (b - 52)"
  unfolding ulp_def using exponent_upper [OF assms(1,2)] assms(3)
  by (intro pow2_mono) simp

lemma ulp_pos: "0 < ulp q"
  by (simp add: ulp_def pow2_pos)

lemma toDouble_bounded:
  assumes "0 < q" "q \<le> 2 powi b" "- 1022 \<le> b" "b \<le> 1000"
  shows "\<exists>r. toDouble q = Some r \<and> \<bar>r - q\<bar> \<le> 2 powi (b - 53) \<and> 0 \<le> r \<and> r \<le> 2 powi b
    \<and> (2 powi (- 1022) \<le> q \<longrightarrow> 0 < r)"
proof -
  let ?u = "ulp q"
  let ?n = "roundHalfEven (q / ?u)"
  let ?r = "of_int ?n * ?u"
  have u: "0 < ?u" by (rule ulp_pos)
  have ub: "?u \<le> 2 powi (b - 52)" using assms(1-3) by (rule ulp_upper)
  have "\<bar>?r - q\<bar> = \<bar>of_int ?n - q / ?u\<bar> * ?u"
    using u by (simp add: abs_mult field_simps flip: abs_mult_pos) 
  also have "\<dots> \<le> 1 / 2 * ?u"
    using roundHalfEven_error [of "q / ?u"] u by (intro mult_right_mono) simp_all
  also have "\<dots> \<le> 1 / 2 * 2 powi (b - 52)" using ub by simp
  also have "\<dots> = 2 powi (b - 53)"
    using power_int_add [of "2 :: rat" "b - 53" 1] by simp
  finally have err: "\<bar>?r - q\<bar> \<le> 2 powi (b - 53)" .
  have "0 \<le> q / ?u" using assms(1) u by simp
  then have "0 \<le> ?n" using roundHalfEven_ge [of 0 "q / ?u"] by simp
  then have nonneg: "0 \<le> ?r" using u by simp
  obtain j where j: "0 \<le> j" "2 powi b = of_int (2 ^ nat j) * ?u"
  proof
    let ?E = "max (exponent q) (- 1022)"
    have E: "?E \<le> b" using exponent_upper [OF assms(1,2)] assms(3) by simp
    show "0 \<le> b - (?E - 52)" using E by linarith
    have "(2 :: rat) powi b = 2 powi (b - (?E - 52)) * 2 powi (?E - 52)"
      using power_int_add [of "2 :: rat" "b - (?E - 52)" "?E - 52"] by simp
    also have "(2 :: rat) powi (b - (?E - 52)) = of_int (2 ^ nat (b - (?E - 52)))"
      using E by (subst power_int_nonneg_exp) (linarith, simp)
    finally show "2 powi b = of_int (2 ^ nat (b - (?E - 52))) * ?u"
      by (simp add: ulp_def)
  qed
  have "q / ?u \<le> of_int (2 ^ nat j)"
    using assms(2) j(2) u by (simp add: field_simps)
  then have "?n \<le> 2 ^ nat j" by (rule roundHalfEven_le)
  then have "(of_int ?n :: rat) \<le> of_int (2 ^ nat j)" by (simp only: of_int_le_iff)
  then have top: "?r \<le> 2 powi b"
    unfolding j(2) using u by (intro mult_right_mono) simp_all
  have "(2 :: rat) powi b \<le> 2 powi 1000" using assms(4) by (rule pow2_mono)
  also have "\<dots> < 2 ^ 1024" by simp
  finally have "?r < 2 ^ 1024" using top by simp
  then have "toDouble q = Some ?r"
    using assms(1) by (simp add: toDouble_def Let_def)
  moreover have "0 < ?r" if low: "2 powi (- 1022) \<le> q"
  proof -
    have "?u \<le> q"
    proof (cases "- 1022 \<le> exponent q")
      case True
      then have "?u = 2 powi (exponent q - 52)" by (simp add: ulp_def max_def)
      also have "\<dots> \<le> 2 powi exponent q" by (rule pow2_mono) simp
      also have "\<dots> \<le> q" using assms(1) by (rule exponent_lower)
      finally show ?thesis .
    next
      case False
      then have "?u = 2 powi (- 1022 - 52)" by (simp add: ulp_def max_def)
      also have "\<dots> \<le> 2 powi (- 1022)" by (rule pow2_mono) simp
      finally show ?thesis using low by simp
    qed
    then have "of_int 1 \<le> q / ?u" using u by (simp add: field_simps)
    then have "1 \<le> ?n" by (rule roundHalfEven_ge)
    then show ?thesis using u by simp
  qed
  ultimately show ?thesis using err nonneg top by simp
qed

lemma toDouble_int:
  assumes "0 \<le> n" "n < 2 ^ 53"
  shows "toDouble (of_int n) = Some (of_int n)"
proof (cases "n = 0")
  case True
  then show ?thesis by (simp add: toDouble_def)
next
  case False
  with assms have pos: "0 < n" by simp
  let ?q = "of_int n :: rat"
  let ?e = "bitlen n - 1"
  have q1: "1 \<le> ?q" using pos by simp
  have e0: "0 \<le> ?e" using pos by (simp add: bitlen_alt_def)
  have "(2 :: int) ^ nat ?e \<le> n" using bitlen_bounds [OF pos] by simp
  also have "\<dots> < 2 ^ 53" by (rule assms(2))
  finally have lt: "(2 :: int) ^ nat ?e < 2 ^ 53" .
  have "nat ?e < 53" using power_less_imp_less_exp [OF _ lt] by simp
  then have e52: "?e \<le> 52" by simp
  have ex: "exponent ?q = ?e" using q1 by (simp add: exponent_def)
  have u: "ulp ?q = 2 powi (?e - 52)" using e0 by (simp add: ulp_def ex max_def)
  have "(1 :: rat) = 2 powi (52 - ?e) * 2 powi (?e - 52)"
    using power_int_add [of "2 :: rat" "52 - ?e" "?e - 52"] by simp
  also have "(2 :: rat) powi (52 - ?e) = of_int (2 ^ nat (52 - ?e))"
    using e52 by (subst power_int_nonneg_exp) (linarith, simp)
  finally have one: "1 = of_int (2 ^ nat (52 - ?e)) * ulp ?q" by (simp add: u)
  have upos: "0 < ulp ?q" by (rule ulp_pos)
  have "?q / ulp ?q = of_int (n * 2 ^ nat (52 - ?e))"
  proof -
    have "?q = ?q * (of_int (2 ^ nat (52 - ?e)) * ulp ?q)" using one by simp
    then have "?q / ulp ?q = ?q * of_int (2 ^ nat (52 - ?e))"
      using upos by (simp add: field_simps)
    then show ?thesis by simp
  qed
  then have "roundHalfEven (?q / ulp ?q) = n * 2 ^ nat (52 - ?e)"
    by (simp only: roundHalfEven_of_int)
  then have "of_int (roundHalfEven (?q / ulp ?q)) * ulp ?q
      = ?q * (of_int (2 ^ nat (52 - ?e)) * ulp ?q)"
    by simp
  also have "\<dots> = ?q" using one by simp
  finally have r: "of_int (roundHalfEven (?q / ulp ?q)) * ulp ?q = ?q" .
  have "?q < of_int (2 ^ 53)" using assms(2) by (simp only: of_int_less_iff)
  also have "\<dots> < (2 :: rat) ^ 1024" by simp
  finally have "?q < 2 ^ 1024" .
  then show ?thesis
    using pos r by (simp add: toDouble_def Let_def)
qed

lemma toDouble_small:
  assumes "0 < q" "q \<le> 1024"
  shows "\<exists>r. toDouble q = Some r \<and> \<bar>r - q\<bar> \<le> 1 / 2 ^ 43 \<and> 0 \<le> r \<and> r \<le> 1024
    \<and> (1 / 2 ^ 22 \<le> q \<longrightarrow> 0 < r)"
proof -
  have low: "(2 :: rat) powi (- 1022) \<le> 1 / 2 ^ 22"
    using pow2_mono [of "- 1022" "- 22"] by (simp add: power_int_minus_divide)
  from toDouble_bounded [of q 10] assms
  obtain r where "toDouble q = Some r" "\<bar>r - q\<bar> \<le> 2 powi (10 - 53)" "0 \<le> r" "r \<le> 2 powi 10"
    "2 powi (- 1022) \<le> q \<longrightarrow> 0 < r"
    by auto
  with low show ?thesis by (auto simp: power_int_minus_divide)
qed

lemma toDouble_half:
  assumes "0 < q" "q \<le> 512"
  shows "\<exists>r. toDouble q = Some r \<and> \<bar>r - q\<bar> \<le> 1 / 2 ^ 44 \<and> 0 \<le> r \<and> r \<le> 512"
proof -
  from toDouble_bounded [of q 9] assms
  obtain r where "toDouble q = Some r" "\<bar>r - q\<bar> \<le> 2 powi (9 - 53)" "0 \<le> r" "r \<le> 2 powi 9"
    by auto
  then show ?thesis by (auto simp: power_int_minus_divide)
qed

lemma centred_offset:
  assumes "0 < n" "n \<le> 1024"
  shows "\<exists>y. Option.bind (jsSub 1024 n) (\<lambda>d. jsDiv d 2) = Some y
    \<and> \<bar>y - (1024 - n) / 2\<bar> \<le> 1 / 2 ^ 43 \<and> 0 \<le> y \<and> y \<le> 512 \<and> (n = 1024 \<longrightarrow> y = 0)"
proof (cases "n = 1024")
  case True
  then show ?thesis by (simp add: jsSub_def jsDiv_def toDouble_def)
next
  case False
  with assms have "0 < 1024 - n" "1024 - n \<le> 1024" by simp_all
  from toDouble_small [OF this]
  obtain d where d: "toDouble (1024 - n) = Some d" "\<bar>d - (1024 - n)\<bar> \<le> 1 / 2 ^ 43" "0 \<le> d"
    "d \<le> 1024"
    by auto
  show ?thesis
  proof (cases "d = 0")
    case True
    have z: "toDouble (0 / 2) = Some 0" by (simp add: toDouble_def)
    have "\<bar>0 - (1024 - n) / 2\<bar> = \<bar>d - (1024 - n)\<bar> / 2" using True by simp
    also have "\<dots> \<le> (1 / 2 ^ 43) / 2" using d(2) by (rule divide_right_mono) simp
    also have "\<dots> \<le> 1 / 2 ^ 43" by simp
    finally have "\<bar>0 - (1024 - n) / 2\<bar> \<le> 1 / 2 ^ 43" .
    with d(1) True z False show ?thesis by (simp add: jsSub_def jsDiv_def)
  next
    case nz: False
    with d have "0 < d / 2" "d / 2 \<le> 512" by simp_all
    from toDouble_half [OF this]
    obtain y where y: "toDouble (d / 2) = Some y" "\<bar>y - d / 2\<bar> \<le> 1 / 2 ^ 44" "0 \<le> y" "y \<le> 512"
      by auto
    have "y - (1024 - n) / 2 = (y - d / 2) + (d - (1024 - n)) / 2" by (simp add: field_simps)
    then have "\<bar>y - (1024 - n) / 2\<bar> = \<bar>(y - d / 2) + (d - (1024 - n)) / 2\<bar>" by simp
    also have "\<dots> \<le> \<bar>y - d / 2\<bar> + \<bar>(d - (1024 - n)) / 2\<bar>" by (rule abs_triangle_ineq)
    also have "\<dots> = \<bar>y - d / 2\<bar> + \<bar>d - (1024 - n)\<bar> / 2" by simp
    also have "\<dots> \<le> 1 / 2 ^ 44 + (1 / 2 ^ 43) / 2"
      using y(2) d(2) by (intro add_mono divide_right_mono) simp_all
    also have "\<dots> = 1 / 2 ^ 43" by simp
    finally have "\<bar>y - (1024 - n) / 2\<bar> \<le> 1 / 2 ^ 43" .
    with d y False show ?thesis by (simp add: jsSub_def jsDiv_def)
  qed
qed

lemma scaled_side:
  fixes a b :: nat
  assumes "0 < a" "a \<le> b" "b < 2 ^ 32"
  shows "\<exists>s. Option.bind (jsMul (rat_of_nat a) 1024) (\<lambda>p. jsDiv p (rat_of_nat b)) = Some s
    \<and> \<bar>s - rat_of_nat a * 1024 / rat_of_nat b\<bar> \<le> 1 / 2 ^ 43 \<and> 0 < s \<and> s \<le> 1024
    \<and> (a = b \<longrightarrow> s = 1024)"
proof -
  have "int a * 1024 < 2 ^ 32 * 1024" using assms by simp
  then have "int a * 1024 < 2 ^ 53" by simp
  with toDouble_int [of "int a * 1024"]
  have prod: "jsMul (rat_of_nat a) 1024 = Some (rat_of_nat a * 1024)"
    by (simp add: jsMul_def)
  have b0: "rat_of_nat b \<noteq> 0" using assms by simp
  show ?thesis
  proof (cases "a = b")
    case True
    have "toDouble (of_int 1024) = Some (of_int 1024)" by (rule toDouble_int) simp_all
    with True prod b0 show ?thesis by (simp add: jsDiv_def)
  next
    case False
    let ?q = "rat_of_nat a * 1024 / rat_of_nat b"
    have pos: "0 < ?q" using assms by simp
    have "rat_of_nat a \<le> rat_of_nat b" using assms by simp
    then have le: "?q \<le> 1024" using assms by (simp add: pos_divide_le_eq)
    have "b \<le> 2 ^ 32 * a" using assms(1,3) by (cases a) simp_all
    then have "rat_of_nat b \<le> rat_of_nat (2 ^ 32 * a)" by (simp only: of_nat_le_iff)
    then have "rat_of_nat b \<le> 2 ^ 32 * rat_of_nat a" by simp
    then have low: "1 / 2 ^ 22 \<le> ?q" using assms by (simp add: field_simps)
    from toDouble_small [OF pos le] low
    obtain s where "toDouble ?q = Some s" "\<bar>s - ?q\<bar> \<le> 1 / 2 ^ 43" "0 < s" "s \<le> 1024"
      by auto
    with prod b0 False show ?thesis by (simp add: jsDiv_def)
  qed
qed

section \<open>Properties of normalizeImage\<close>

lemma word_dims:
  fixes w :: "32 word"
  shows "unat w < 2 ^ 32" and "0 < w \<Longrightarrow> 0 < unat w"
  using unsigned_less [of w, where 'a = nat] by (simp_all add: unat_gt_0)

lemma drawImage_wide:
  fixes w h :: "32 word"
  assumes "h < w" "0 < h"
  shows "\<exists>y nh. drawImage (drawNormalized w h) = Some (0, y, 1024, nh)
    \<and> scaleTo (rat_of_int (uint h)) (rat_of_int (uint w)) = Some nh
    \<and> \<bar>nh - rat_of_int (uint h) * 1024 / rat_of_int (uint w)\<bar> \<le> 1 / 2 ^ 43
    \<and> 0 < nh \<and> nh \<le> 1024
    \<and> centre nh = Some y \<and> \<bar>y - (1024 - nh) / 2\<bar> \<le> 1 / 2 ^ 43 \<and> 0 \<le> y \<and> y \<le> 512"
proof -
  have "0 < unat h" "unat h \<le> unat w" "unat w < 2 ^ 32"
    using assms word_dims [of w] word_dims [of h] by (simp_all add: word_less_nat_alt)
  from scaled_side [OF this]
  obtain nh where nh: "scaleTo (rat_of_int (uint h)) (rat_of_int (uint w)) = Some nh"
    "\<bar>nh - rat_of_int (uint h) * 1024 / rat_of_int (uint w)\<bar> \<le> 1 / 2 ^ 43" "0 < nh" "nh \<le> 1024"
    by (auto simp: scaleTo_def MAX_DIMENSION_def)
  from centred_offset [OF nh(3,4)]
  obtain y where y: "centre nh = Some y" "\<bar>y - (1024 - nh) / 2\<bar> \<le> 1 / 2 ^ 43" "0 \<le> y" "y \<le> 512"
    by (auto simp: centre_def MAX_DIMENSION_def)
  from centred_offset [of 1024]
  have x: "centre 1024 = Some 0" by (auto simp: centre_def MAX_DIMENSION_def)
  have "drawImage (drawNormalized w h) = Some (0, y, 1024, nh)"
    using assms(1) nh(1) y(1) x by (simp add: drawNormalized_def Let_def MAX_DIMENSION_def)
  with nh y show ?thesis by simp
qed

lemma centre_full: "centre 1024 = Some 0"
  using centred_offset [of 1024] by (auto simp: centre_def MAX_DIMENSION_def)

lemma drawImage_tall:
  fixes w h :: "32 word"
  assumes "\<not> h < w" "0 < w"
  shows "\<exists>x nw. drawImage (drawNormalized w h) = Some (x, 0, nw, 1024)
    \<and> scaleTo (rat_of_int (uint w)) (rat_of_int (uint h)) = Some nw
    \<and> \<bar>nw - rat_of_int (uint w) * 1024 / rat_of_int (uint h)\<bar> \<le> 1 / 2 ^ 43
    \<and> 0 < nw \<and> nw \<le> 1024
    \<and> centre nw = Some x \<and> \<bar>x - (1024 - nw) / 2\<bar> \<le> 1 / 2 ^ 43 \<and> 0 \<le> x \<and> x \<le> 512
    \<and> (w = h \<longrightarrow> nw = 1024 \<and> x = 0)"
proof -
  have "0 < unat w" "unat w \<le> unat h" "unat h < 2 ^ 32"
    using assms word_dims [of w] word_dims [of h] by (simp_all add: word_less_nat_alt)
  from scaled_side [OF this]
  obtain nw where nw: "scaleTo (rat_of_int (uint w)) (rat_of_int (uint h)) = Some nw"
    "\<bar>nw - rat_of_int (uint w) * 1024 / rat_of_int (uint h)\<bar> \<le> 1 / 2 ^ 43" "0 < nw" "nw \<le> 1024"
    "w = h \<longrightarrow> nw = 1024"
    by (auto simp: scaleTo_def MAX_DIMENSION_def)
  from centred_offset [OF nw(3,4)]
  obtain x where x: "centre nw = Some x" "\<bar>x - (1024 - nw) / 2\<bar> \<le> 1 / 2 ^ 43" "0 \<le> x" "x \<le> 512"
    "nw = 1024 \<longrightarrow> x = 0"
    by (auto simp: centre_def MAX_DIMENSION_def)
  have "drawImage (drawNormalized w h) = Some (x, 0, nw, 1024)"
    using assms(1) nw(1) x(1) centre_full
    by (simp add: drawNormalized_def Let_def MAX_DIMENSION_def)
  with nw x show ?thesis by simp
qed

lemma toDouble_numeral:
  "(numeral k :: int) < 2 ^ 53 \<Longrightarrow> toDouble (numeral k) = Some (numeral k)"
  using toDouble_int [of "numeral k"] by simp

lemma drawImage_2000_1000: "drawImage (drawNormalized 2000 1000) = Some (0, 256, 1024, 512)"
proof -
  have s: "scaleTo 1000 2000 = Some 512"
    by (simp add: scaleTo_def jsMul_def jsDiv_def MAX_DIMENSION_def toDouble_numeral)
  have c: "centre 512 = Some 256"
    by (simp add: centre_def jsSub_def jsDiv_def MAX_DIMENSION_def toDouble_numeral)
  show ?thesis
    using s c centre_full by (simp add: drawNormalized_def Let_def MAX_DIMENSION_def)
qed

lemma drawImage_fits:
  fixes w h :: "32 word"
  assumes "0 < w" "0 < h"
  shows "\<exists>x y nw nh. drawImage (drawNormalized w h) = Some (x, y, nw, nh)
      \<and> (h \<le> w \<longrightarrow> nw = 1024 \<and> x = 0
            \<and> scaleTo (rat_of_int (uint h)) (rat_of_int (uint w)) = Some nh
            \<and> \<bar>nh - rat_of_int (uint h) * 1024 / rat_of_int (uint w)\<bar> \<le> 1 / 2 ^ 43)
      \<and> (w \<le> h \<longrightarrow> nh = 1024 \<and> y = 0
            \<and> scaleTo (rat_of_int (uint w)) (rat_of_int (uint h)) = Some nw
            \<and> \<bar>nw - rat_of_int (uint w) * 1024 / rat_of_int (uint h)\<bar> \<le> 1 / 2 ^ 43)
      \<and> centre nw = Some x \<and> \<bar>x - (1024 - nw) / 2\<bar> \<le> 1 / 2 ^ 43
      \<and> centre nh = Some y \<and> \<bar>y - (1024 - nh) / 2\<bar> \<le> 1 / 2 ^ 43
      \<and> 0 \<le> x \<and> 0 \<le> y \<and> 0 < nw \<and> nw \<le> 1024 \<and> 0 < nh \<and> nh \<le> 1024"
proof (cases "h < w")
  case True
  from drawImage_wide [OF True assms(2)]
  obtain y nh where "drawImage (drawNormalized w h) = Some (0, y, 1024, nh)"
    "scaleTo (rat_of_int (uint h)) (rat_of_int (uint w)) = Some nh"
    "\<bar>nh - rat_of_int (uint h) * 1024 / rat_of_int (uint w)\<bar> \<le> 1 / 2 ^ 43"
    "0 < nh" "nh \<le> 1024"
    "centre nh = Some y" "\<bar>y - (1024 - nh) / 2\<bar> \<le> 1 / 2 ^ 43" "0 \<le> y"
    by blast
  note f = this
  have nle: "\<not> w \<le> h" using True by (simp add: not_le)
  have le: "h \<le> w" using True by simp
  have c2: "\<bar>0 - (1024 - 1024) / 2\<bar> \<le> 1 / (2 :: rat) ^ 43" by simp
  show ?thesis
    apply (rule exI [of _ 0], rule exI [of _ y], rule exI [of _ 1024], rule exI [of _ nh])
    apply (insert f nle le c2 centre_full)
    by (intro conjI impI; (assumption | blast | simp (no_asm)))
next
  case False
  from drawImage_tall [OF False assms(1)]
  obtain x nw where d: "drawImage (drawNormalized w h) = Some (x, 0, nw, 1024)"
    "scaleTo (rat_of_int (uint w)) (rat_of_int (uint h)) = Some nw"
    "\<bar>nw - rat_of_int (uint w) * 1024 / rat_of_int (uint h)\<bar> \<le> 1 / 2 ^ 43"
    "0 < nw" "nw \<le> 1024"
    "centre nw = Some x" "\<bar>x - (1024 - nw) / 2\<bar> \<le> 1 / 2 ^ 43" "0 \<le> x"
    "w = h \<longrightarrow> nw = 1024 \<and> x = 0"
    by blast
  have c1: "h \<le> w \<longrightarrow> nw = 1024 \<and> x = 0
      \<and> scaleTo (rat_of_int (uint h)) (rat_of_int (uint w)) = Some 1024
      \<and> \<bar>1024 - rat_of_int (uint h) * 1024 / rat_of_int (uint w)\<bar> \<le> 1 / 2 ^ 43"
  proof (intro impI)
    assume "h \<le> w"
    with False have "w = h" by simp
    with d(2,3,9) show "nw = 1024 \<and> x = 0
      \<and> scaleTo (rat_of_int (uint h)) (rat_of_int (uint w)) = Some 1024
      \<and> \<bar>1024 - rat_of_int (uint h) * 1024 / rat_of_int (uint w)\<bar> \<le> 1 / 2 ^ 43"
      by simp
  qed
  have c2: "\<bar>0 - (1024 - 1024) / 2\<bar> \<le> 1 / (2 :: rat) ^ 43" by simp
  show ?thesis
    apply (rule exI [of _ x], rule exI [of _ 0], rule exI [of _ nw], rule exI [of _ 1024])
    apply (insert d(1-8) c1 c2 centre_full)
    by (intro conjI impI; (assumption | blast | simp (no_asm)))
qed

lemma normalizeImage_loaded:
  assumes "readFile b = Inr (Some src)" "src \<noteq> []" "loadImage b src = Some (w, h)"
    "hasContext2d b"
  shows "normalizeImage b = Inr (toDataURL b (drawNormalized w h) ''image/png'')"
  using assms by (simp add: normalizeImage_def)

lemma canvas_drawNormalized:
  "canvas_width (drawNormalized w h) = 1024 \<and> canvas_height (drawNormalized w h) = 1024
   \<and> fillStyle (drawNormalized w h) = ''black''
   \<and> fillRect (drawNormalized w h) = (0, 0, 1024, 1024)"
  by (simp add: drawNormalized_def MAX_DIMENSION_def Let_def)

text \<open>
  C3. For an image of \<open>w\<close> by \<open>h\<close> pixels, both positive, \<^verbatim>\<open>normalizeImage\<close> resolves
  with the PNG encoding of a 1024 by 1024 canvas, filled black, on which the image is
  drawn in a rectangle \<open>(x, y, nw, nh)\<close>. The larger of \<open>w\<close>, \<open>h\<close> is mapped to 1024 and
  has offset 0; the other side is the double that \<^verbatim>\<open>(h * 1024) / w\<close> (or
  \<^verbatim>\<open>(w * 1024) / h\<close>) evaluates to, within \<open>1 / 2 ^ 43\<close> of the proportional length,
  positive and at most 1024; each offset is the double that \<^verbatim>\<open>(1024 - new) / 2\<close> evaluates
  to, not negative and within \<open>1 / 2 ^ 43\<close> of half the free space. A 2000 by 1000
  image is drawn 1024 by 512 at \<open>(0, 256)\<close> exactly, with 256 rows above and 256 below.
\<close>

theorem normalizeImage_square_centered:
  fixes w h :: "32 word"
  assumes "0 < w" "0 < h"
  shows "canvas_width (drawNormalized w h) = 1024 \<and> canvas_height (drawNormalized w h) = 1024
    \<and> fillStyle (drawNormalized w h) = ''black''
    \<and> fillRect (drawNormalized w h) = (0, 0, 1024, 1024)
    \<and> (\<exists>x y nw nh. drawImage (drawNormalized w h) = Some (x, y, nw, nh)
          \<and> (h \<le> w \<longrightarrow> nw = 1024 \<and> x = 0
                \<and> scaleTo (rat_of_int (uint h)) (rat_of_int (uint w)) = Some nh
                \<and> \<bar>nh - rat_of_int (uint h) * 1024 / rat_of_int (uint w)\<bar> \<le> 1 / 2 ^ 43)
          \<and> (w \<le> h \<longrightarrow> nh = 1024 \<and> y = 0
                \<and> scaleTo (rat_of_int (uint w)) (rat_of_int (uint h)) = Some nw
                \<and> \<bar>nw - rat_of_int (uint w) * 1024 / rat_of_int (uint h)\<bar> \<le> 1 / 2 ^ 43)
          \<and> centre nw = Some x \<and> \<bar>x - (1024 - nw) / 2\<bar> \<le> 1 / 2 ^ 43
          \<and> centre nh = Some y \<and> \<bar>y - (1024 - nh) / 2\<bar> \<le> 1 / 2 ^ 43
          \<and> 0 \<le> x \<and> 0 \<le> y \<and> 0 < nw \<and> nw \<le> 1024 \<and> 0 < nh \<and> nh \<le> 1024)
    \<and> (readFile b = Inr (Some src) \<and> src \<noteq> [] \<and> loadImage b src = Some (w, h)
          \<and> hasContext2d b
        \<longrightarrow> normalizeImage b = Inr (toDataURL b (drawNormalized w h) ''image/png''))
    \<and> drawImage (drawNormalized 2000 1000) = Some (0, 256, 1024, 512)
    \<and> 1024 - (256 + 512) = (256 :: rat)"
proof -
  have n: "readFile b = Inr (Some src) \<and> src \<noteq> [] \<and> loadImage b src = Some (w, h)
          \<and> hasContext2d b
        \<longrightarrow> normalizeImage b = Inr (toDataURL b (drawNormalized w h) ''image/png'')"
    using normalizeImage_loaded [of b src w h] by blast
  have e: "1024 - (256 + 512) = (256 :: rat)" by simp
  from canvas_drawNormalized [of w h] drawImage_fits [OF assms] n drawImage_2000_1000 e
  show ?thesis by blast
qed

theorem normalizeImage_square_centered_witness:
  "(0 :: 32 word) < 2000 \<and> (0 :: 32 word) < 1000
   \<and> canvas_width (drawNormalized 2000 1000) = 1024
   \<and> canvas_height (drawNormalized 2000 1000) = 1024
   \<and> drawImage (drawNormalized 2000 1000) = Some (0, 256, 1024, 512)
   \<and> normalizeImage
        \<lparr>readFile = Inr (Some ''data:image/jpeg;base64,AAAA''),
         loadImage = (\<lambda>src. Some (2000, 1000)), hasContext2d = True,
         toDataURL = (\<lambda>c t. dataUrl t ''CANVAS'')\<rparr>
       = Inr ''data:image/png;base64,CANVAS''"
proof -
  have p: "(0 :: 32 word) < 2000" "(0 :: 32 word) < 1000" by simp_all
  from normalizeImage_square_centered
    [OF p, of "\<lparr>readFile = Inr (Some ''data:image/jpeg;base64,AAAA''),
          loadImage = (\<lambda>src. Some (2000, 1000)), hasContext2d = True,
          toDataURL = (\<lambda>c t. dataUrl t ''CANVAS'')\<rparr>"
        "''data:image/jpeg;base64,AAAA''"]
  have "canvas_width (drawNormalized 2000 1000) = 1024"
    and "canvas_height (drawNormalized 2000 1000) = 1024"
    and "drawImage (drawNormalized 2000 1000) = Some (0, 256, 1024, 512)"
    and "normalizeImage
        \<lparr>readFile = Inr (Some ''data:image/jpeg;base64,AAAA''),
         loadImage = (\<lambda>src. Some (2000, 1000)), hasContext2d = True,
         toDataURL = (\<lambda>c t. dataUrl t ''CANVAS'')\<rparr>
       = Inr (dataUrl ''image/png'' ''CANVAS'')"
    by simp_all
  with p show ?thesis by (simp add: dataUrl_def)
qed

section \<open>Properties of dataUrlToParts\<close>

lemma jsSplit_no_sep: "sep \<notin> set xs \<Longrightarrow> jsSplit sep xs = [xs]"
  by (induction xs) auto

lemma jsSplit_at_first_sep:
  "sep \<notin> set xs \<Longrightarrow> jsSplit sep (xs @ sep # ys) = xs # jsSplit sep ys"
  by (induction xs) auto

lemma lazyToSemicolon_group:
  "\<forall>c\<in>set g. c \<noteq> CHR '';'' \<and> \<not> lineTerminator c
   \<Longrightarrow> lazyToSemicolon (g @ CHR '';'' # rest) = Some g"
  by (induction g) auto

lemma matchMimeType_data_header:
  assumes "\<forall>c\<in>set m. c \<noteq> CHR '';'' \<and> \<not> lineTerminator c"
  shows "matchMimeType (''data:'' @ m @ '';base64'') = Some m"
  using lazyToSemicolon_group [OF assms, of "''base64''"] by simp

text \<open>
  C4, as the code has it. The data URL built from a media type \<open>m\<close> and a payload \<open>b\<close>
  is parsed back into \<open>(b, m)\<close> when \<open>m\<close> is not empty and has no comma, no semicolon
  and no line terminator, and \<open>b\<close> has no comma (no Base64 text has one).
\<close>

theorem dataUrlToParts_roundtrip:
  assumes "m \<noteq> []"
    and "\<forall>c\<in>set m. c \<noteq> CHR '','' \<and> c \<noteq> CHR '';'' \<and> \<not> lineTerminator c"
    and "CHR '','' \<notin> set b"
  shows "dataUrlToParts (dataUrl m b) = Inr (b, m)"
proof -
  let ?header = "''data:'' @ m @ '';base64''"
  have no_comma: "CHR '','' \<notin> set ?header"
    using assms(2) by auto
  have "dataUrl m b = ?header @ CHR '','' # b"
    by (simp add: dataUrl_def)
  then have "jsSplit CHR '','' (dataUrl m b) = [?header, b]"
    using jsSplit_at_first_sep [OF no_comma, of b] jsSplit_no_sep [OF assms(3)] by simp
  moreover have "matchMimeType ?header = Some m"
    using assms(2) by (intro matchMimeType_data_header) simp
  ultimately show ?thesis
    using assms(1) by (simp add: dataUrlToParts_def)
qed

theorem dataUrlToParts_roundtrip_witness:
  "''image/png'' \<noteq> []
   \<and> list_all (\<lambda>c. c \<noteq> CHR '','' \<and> c \<noteq> CHR '';'' \<and> \<not> lineTerminator c) ''image/png''
   \<and> CHR '','' \<notin> set ''iVBORw0KGgo=''
   \<and> dataUrlToParts (dataUrl ''image/png'' ''iVBORw0KGgo='')
       = Inr (''iVBORw0KGgo='', ''image/png'')"
  using dataUrlToParts_roundtrip [of "''image/png''" "''iVBORw0KGgo=''"]
  by (simp add: lineTerminator_def)

text \<open>
  C4 as stated, for every media type, fails: a media type with a parameter comes back
  without it, and an empty media type makes the parse throw.
\<close>

theorem dataUrlToParts_roundtrip_counterexample:
  "dataUrlToParts (dataUrl ''image/svg+xml;charset=utf-8'' ''AAAA'')
     = Inr (''AAAA'', ''image/svg+xml'')
   \<and> dataUrlToParts (dataUrl ''image/svg+xml;charset=utf-8'' ''AAAA'')
     \<noteq> Inr (''AAAA'', ''image/svg+xml;charset=utf-8'')
   \<and> dataUrlToParts (dataUrl [] ''AAAA'') = Inl FormatError_mime"
  by (simp add: dataUrlToParts_def dataUrl_def lineTerminator_def FormatError_mime_def)

section \<open>Properties of editImageWithGemini\<close>

lemma lastInlineData_Nil: "lastInlineData [] = None"
  by (simp add: lastInlineData_def map_filter_simps)

lemma lastInlineData_Cons:
  "lastInlineData (p # ps) =
     (case lastInlineData ps of Some b \<Rightarrow> Some b | None \<Rightarrow> inlineData p)"
  by (cases "inlineData p"; cases "List.map_filter inlineData ps")
     (simp_all add: lastInlineData_def map_filter_simps)

lemma textParts_Cons:
  "textParts (p # ps) =
     (case inlineData p of Some b \<Rightarrow> []
      | None \<Rightarrow> (case partText p of None \<Rightarrow> [] | Some t \<Rightarrow> [t])) @ textParts ps"
  by (simp add: textParts_def)

text \<open>The loop computes the last inline data and the concatenated texts.\<close>

lemma scanParts_spec:
  "scanParts ps (im, tx, mt) =
     (case lastInlineData ps of
        None \<Rightarrow> (im, tx @ concat (textParts ps), mt)
      | Some b \<Rightarrow> (data b, tx @ concat (textParts ps), mimeType b))"
proof (induction ps arbitrary: im tx mt)
  case Nil
  then show ?case by (simp add: lastInlineData_Nil textParts_def)
next
  case (Cons p ps)
  show ?case
  proof (cases "inlineData p")
    case None
    then show ?thesis
      by (cases "partText p")
         (simp_all add: Cons.IH lastInlineData_Cons textParts_Cons split: option.splits)
  next
    case (Some b)
    then show ?thesis
      by (simp add: Cons.IH lastInlineData_Cons textParts_Cons split: option.splits)
  qed
qed

lemma readResponse_contentParts:
  "readResponse m r =
     (case contentParts r of
        None \<Rightarrow> Inl EmptyResponseError
      | Some ps \<Rightarrow>
          (case scanParts ps (None, [], Some m) of
             (newImageBase64, newText, newMimeType) \<Rightarrow>
               (case newImageBase64 of
                  None \<Rightarrow> Inl (noImage newText)
                | Some b \<Rightarrow>
                    if b = [] then Inl (noImage newText)
                    else Inr \<lparr>imageUrl = dataUrl (template newMimeType) b, text' = newText\<rparr>)))"
  by (simp add: readResponse_def contentParts_def split: option.splits list.splits)

lemma readResponse_image:
  assumes "contentParts r = Some ps" "lastInlineData ps = Some (Blob (Some b) mt)" "b \<noteq> []"
  shows "readResponse m r =
    Inr \<lparr>imageUrl = dataUrl (template mt) b, text' = concat (textParts ps)\<rparr>"
  using assms by (simp add: readResponse_contentParts scanParts_spec)

lemma lastInlineData_None:
  "\<forall>q\<in>set ps. inlineData q = None \<Longrightarrow> lastInlineData ps = None"
  by (induction ps) (simp_all add: lastInlineData_Nil lastInlineData_Cons)

lemma textParts_nonempty:
  assumes "\<forall>q\<in>set ps. inlineData q = None" "q \<in> set ps" "partText q = Some t" "t \<noteq> []"
  shows "concat (textParts ps) \<noteq> []"
  using assms by (induction ps) (auto simp: textParts_Cons)

lemma readResponse_text_only:
  assumes "contentParts r = Some ps" "\<forall>q\<in>set ps. inlineData q = None"
    "\<exists>q\<in>set ps. \<exists>t. partText q = Some t \<and> t \<noteq> []"
  shows "readResponse m r = Inl (RefusedEditError (concat (textParts ps)))"
proof -
  from assms(3) obtain q t where "q \<in> set ps" "partText q = Some t" "t \<noteq> []" by blast
  then have "concat (textParts ps) \<noteq> []"
    using textParts_nonempty [OF assms(2)] by blast
  then show ?thesis
    using assms(1) lastInlineData_None [OF assms(2)]
    by (simp add: readResponse_contentParts scanParts_spec noImage_def)
qed

text \<open>Whatever the inner block throws, the handler ends with the generic error.\<close>

lemma apiErrorHandler_generic: "apiErrorHandler parse err = TransportError"
  by (simp add: apiErrorHandler_def split: unit.split)

lemma sample_imageData:
  "imageData e (ImageString ''data:image/png;base64,SRC'') = Inr (Some ''SRC'', ''image/png'')"
  by (simp add: imageData_def startsWith_def dataUrlToParts_def lineTerminator_def)

text \<open>
  C5, as the code has it. When the generation call answers with content parts whose last
  part with \<^verbatim>\<open>inlineData\<close> carries a non-empty payload \<open>b\<close> and a media type \<open>mt\<close>, the
  result of \<^verbatim>\<open>editImageWithGemini\<close> (of both copies of the service) has the data URL of
  \<open>mt\<close> and \<open>b\<close> as its image, and as its text the texts of the parts without
  \<^verbatim>\<open>inlineData\<close>, concatenated in part order.
\<close>

theorem last_inline_image_is_result:
  assumes "imageData e img = Inr (d, m)"
    and "generateContent e (buildRequest d m p) = Inr r"
    and "contentParts r = Some ps"
    and "lastInlineData ps = Some (Blob (Some b) (Some mt))"
    and "b \<noteq> []"
  shows "editImageWithGemini e img p =
           Inr \<lparr>imageUrl = dataUrl mt b, text' = concat (textParts ps)\<rparr>
    \<and> editImageWithGemini_caught e img p =
           Inr \<lparr>imageUrl = dataUrl mt b, text' = concat (textParts ps)\<rparr>"
  using assms readResponse_image [OF assms(3) assms(4) assms(5), of m]
  by (simp add: editImageWithGemini_def editImageWithGemini_caught_def template_def)

theorem last_inline_image_is_result_witness:
  "(let ps = [Part None (Some ''one ''),
              Part (Some (Blob (Some ''AAAA'') (Some ''image/png''))) None,
              Part None (Some ''two''),
              Part (Some (Blob (Some ''BBBB'') (Some ''image/jpeg''))) None];
        e = answering ps;
        img = ImageString ''data:image/png;base64,SRC'';
        r = Response (Some [Candidate (Some (Content (Some ps)))])
    in imageData e img = Inr (Some ''SRC'', ''image/png'')
       \<and> generateContent e (buildRequest (Some ''SRC'') ''image/png'' ''add a hat'') = Inr r
       \<and> contentParts r = Some ps
       \<and> lastInlineData ps = Some (Blob (Some ''BBBB'') (Some ''image/jpeg''))
       \<and> editImageWithGemini e img ''add a hat'' =
            Inr \<lparr>imageUrl = ''data:image/jpeg;base64,BBBB'', text' = ''one two''\<rparr>)"
  using last_inline_image_is_result
    [of "answering [Part None (Some ''one ''),
              Part (Some (Blob (Some ''AAAA'') (Some ''image/png''))) None,
              Part None (Some ''two''),
              Part (Some (Blob (Some ''BBBB'') (Some ''image/jpeg''))) None]"
        "ImageString ''data:image/png;base64,SRC''" "Some ''SRC''" "''image/png''"
        "''add a hat''"
        "Response (Some [Candidate (Some (Content (Some [Part None (Some ''one ''),
              Part (Some (Blob (Some ''AAAA'') (Some ''image/png''))) None,
              Part None (Some ''two''),
              Part (Some (Blob (Some ''BBBB'') (Some ''image/jpeg''))) None])))])"
        "[Part None (Some ''one ''),
              Part (Some (Blob (Some ''AAAA'') (Some ''image/png''))) None,
              Part None (Some ''two''),
              Part (Some (Blob (Some ''BBBB'') (Some ''image/jpeg''))) None]"
        "''BBBB''" "''image/jpeg''"]
  by (simp add: Let_def sample_imageData answering_def contentParts_def lastInlineData_def
      map_filter_simps textParts_def dataUrl_def)

text \<open>
  C5 as stated fails: a response with an inline image followed by an inline-data part
  whose payload is empty has an inline-image part, yet the call throws instead of
  returning an image.
\<close>

theorem last_inline_image_counterexample:
  "editImageWithGemini
      (answering [Part (Some (Blob (Some ''AAAA'') (Some ''image/png''))) None,
                  Part (Some (Blob (Some []) (Some ''image/png''))) None])
      (ImageString ''data:image/png;base64,SRC'') ''add a hat''
     = Inl NoImageReturnedError"
  by (simp add: editImageWithGemini_def sample_imageData answering_def readResponse_def
      noImage_def)

text \<open>
  C6, at the failing input. The generation call throws an error whose message is the
  JSON text with \<^verbatim>\<open>error.code\<close> 429. The inner block of the handler throws the quota
  error, but inside the \<^verbatim>\<open>try\<close> whose \<^verbatim>\<open>catch\<close> is empty: what the caller gets is the
  generic error, which is a different one.
\<close>

theorem quota_error_is_swallowed:
  "JSON_parse quotaEnv quotaBodyText = Inr quotaBody
   \<and> optProp (optProp (Some quotaBody) ''error'') ''code'' = Some (JNumber 429)
   \<and> quotaCheck (JSON_parse quotaEnv) (Error quotaBodyText) = Inl QuotaExceededError
   \<and> editImageWithGemini_caught quotaEnv (ImageString ''data:image/png;base64,SRC'')
        ''add a hat'' = Inl TransportError
   \<and> TransportError \<noteq> QuotaExceededError"
  by (simp add: editImageWithGemini_caught_def sample_imageData quotaEnv_def
      apiErrorHandler_generic quotaCheck_def quotaBody_def TransportError_def
      QuotaExceededError_def)

text \<open>
  C7. When the generation call answers with content parts of which none has
  \<^verbatim>\<open>inlineData\<close> and at least one has a non-empty text, \<^verbatim>\<open>editImageWithGemini\<close> (both
  copies) throws the refusal error, whose message quotes the concatenated text as it is.
\<close>

theorem text_only_response_is_refused:
  assumes "imageData e img = Inr (d, m)"
    and "generateContent e (buildRequest d m p) = Inr r"
    and "contentParts r = Some ps"
    and "\<forall>q\<in>set ps. inlineData q = None"
    and "\<exists>q\<in>set ps. \<exists>t. partText q = Some t \<and> t \<noteq> []"
  shows "editImageWithGemini e img p = Inl (RefusedEditError (concat (textParts ps)))
    \<and> editImageWithGemini_caught e img p = Inl (RefusedEditError (concat (textParts ps)))
    \<and> RefusedEditError (concat (textParts ps)) =
        Error (''The AI could not edit the image: '' @ quoted (concat (textParts ps)))"
  using assms(1,2) readResponse_text_only [OF assms(3) assms(4) assms(5), of m]
  by (simp add: editImageWithGemini_def editImageWithGemini_caught_def RefusedEditError_def)

theorem text_only_response_is_refused_witness:
  "(let ps = [Part None (Some ''I cannot ''), Part None None, Part None (Some ''do that.'')];
        e = answering ps;
        img = ImageString ''data:image/png;base64,SRC'';
        r = Response (Some [Candidate (Some (Content (Some ps)))])
    in imageData e img = Inr (Some ''SRC'', ''image/png'')
       \<and> generateContent e (buildRequest (Some ''SRC'') ''image/png'' ''add a hat'') = Inr r
       \<and> contentParts r = Some ps
       \<and> (\<forall>q\<in>set ps. inlineData q = None)
       \<and> (\<exists>q\<in>set ps. \<exists>t. partText q = Some t \<and> t \<noteq> [])
       \<and> editImageWithGemini e img ''add a hat'' = Inl (RefusedEditError ''I cannot do that.''))"
  using text_only_response_is_refused
    [of "answering [Part None (Some ''I cannot ''), Part None None,
                    Part None (Some ''do that.'')]"
        "ImageString ''data:image/png;base64,SRC''" "Some ''SRC''" "''image/png''"
        "''add a hat''"
        "Response (Some [Candidate (Some (Content (Some
           [Part None (Some ''I cannot ''), Part None None, Part None (Some ''do that.'')])))])"
        "[Part None (Some ''I cannot ''), Part None None, Part None (Some ''do that.'')]"]
  by (simp add: Let_def sample_imageData answering_def contentParts_def textParts_def)

text \<open>
  C8, at the failing input. The request's image is a PNG; the answer is one inline image
  without a media type. \<^verbatim>\<open>newMimeType\<close> starts as the request's media type, but the loop
  overwrites it with the part's missing one: the result's media type is the word
  \<^verbatim>\<open>undefined\<close>, not \<^verbatim>\<open>image/png\<close>.
\<close>

theorem omitted_mimeType_is_not_defaulted:
  "imageData (answering [Part (Some (Blob (Some ''BBBB'') None)) None])
      (ImageString ''data:image/png;base64,SRC'') = Inr (Some ''SRC'', ''image/png'')
   \<and> editImageWithGemini (answering [Part (Some (Blob (Some ''BBBB'') None)) None])
      (ImageString ''data:image/png;base64,SRC'') ''add a hat''
     = Inr \<lparr>imageUrl = ''data:undefined;base64,BBBB'', text' = []\<rparr>
   \<and> dataUrlToParts ''data:undefined;base64,BBBB'' = Inr (''BBBB'', ''undefined'')"
  by (simp add: editImageWithGemini_def sample_imageData answering_def readResponse_def
      dataUrl_def template_def dataUrlToParts_def lineTerminator_def)

section \<open>Properties of handleEdit and processImage\<close>

lemma handleEdit_resume_failure:
  "history (handleEdit_resume k (Inl err) t) = history t
   \<and> currentIndex (handleEdit_resume k (Inl err) t) = currentIndex t"
  by (simp add: handleEdit_resume_def)

lemma handleEdit_begin_keeps_history:
  "handleEdit_begin s = (s', k) \<Longrightarrow> history s' = history s \<and> currentIndex s' = currentIndex s"
  by (auto simp: handleEdit_begin_def split: option.splits if_splits)

text \<open>A new image clears the history before it is normalised, and a failed
  normalisation leaves it empty.\<close>

lemma processImage_failure_clears:
  "history (processImage s (Inl err)) = [] \<and> currentIndex (processImage s (Inl err)) = - 1"
  by (simp add: processImage_def processImage_resume_def processImage_begin_def)

text \<open>
  C9. An edit request that fails, refused by the guard or because
  \<^verbatim>\<open>editImageWithGemini\<close> throws (a malformed data URL, a failed call, an answer
  without an image), leaves the history and the cursor as they were; and a failure
  that arrives later, on any state \<open>t\<close>, changes neither the history nor the cursor of
  \<open>t\<close>. An edit request does not normalise: \<^verbatim>\<open>normalizeImage\<close> runs in
  \<^verbatim>\<open>processImage\<close> only.
\<close>

theorem failed_edit_leaves_history:
  "(editFails editImage s
      \<longrightarrow> history (handleEdit editImage s) = history s
        \<and> currentIndex (handleEdit editImage s) = currentIndex s)
   \<and> history (handleEdit_resume k (Inl err) t) = history t
   \<and> currentIndex (handleEdit_resume k (Inl err) t) = currentIndex t"
proof -
  have "history (handleEdit editImage s) = history s
      \<and> currentIndex (handleEdit editImage s) = currentIndex s"
    if fails: "editFails editImage s"
  proof (cases "handleEdit_begin s")
    case (Pair s' ko)
    note keep = handleEdit_begin_keeps_history [OF Pair]
    show ?thesis
    proof (cases ko)
      case None
      with Pair keep show ?thesis by (simp add: handleEdit_def)
    next
      case (Some c)
      with Pair fails
      obtain err' where "editImage (ImageString (c_currentImageUrl c)) (c_prompt c) = Inl err'"
        by (auto simp: editFails_def isl_def)
      with Pair Some keep show ?thesis
        by (simp add: handleEdit_def handleEdit_resume_failure)
    qed
  qed
  then show ?thesis by (simp add: handleEdit_resume_failure)
qed

theorem failed_edit_leaves_history_witness:
  "(let s = \<lparr>history = [''data:image/png;base64,SRC'', ''data:image/png;base64,NEXT''],
             currentIndex = 0, prompt = ''add a hat'', isLoading = False, error = None,
             loadingMessage = []\<rparr>
    in editFails (editImageWithGemini quotaEnv) s
       \<and> history (handleEdit (editImageWithGemini quotaEnv) s) = history s
       \<and> currentIndex (handleEdit (editImageWithGemini quotaEnv) s) = 0
       \<and> error (handleEdit (editImageWithGemini quotaEnv) s) = Some quotaBodyText)"
  using failed_edit_leaves_history
    [of "editImageWithGemini quotaEnv"
        "\<lparr>history = [''data:image/png;base64,SRC'', ''data:image/png;base64,NEXT''],
          currentIndex = 0, prompt = ''add a hat'', isLoading = False, error = None,
          loadingMessage = []\<rparr>"]
  by (simp add: Let_def editFails_def handleEdit_def handleEdit_begin_def handleEdit_resume_def
      currentImageUrl_def jsIndex_def trimIsEmpty_def whiteSpace_def editImageWithGemini_def
      sample_imageData quotaEnv_def errorText_def)

section \<open>An edit that settles after a reset\<close>

lemma handleEdit_begin_started:
  assumes "handleEdit_begin s = (s', Some k)"
  shows "c_history k = history s \<and> c_currentIndex k = currentIndex s
    \<and> 0 \<le> currentIndex s \<and> currentIndex s < int (length (history s))"
  using assms
  by (auto simp: handleEdit_begin_def currentImageUrl_def jsIndex_def
      split: option.splits if_splits)

text \<open>
  C10, as the code has it. There is no epoch and no staleness check: an edit started in
  a state \<open>s\<close> with cursor \<open>i\<close> and settled with an image in any later state \<open>t\<close>,
  whatever happened in between, sets the history to the first \<open>i + 1\<close> elements of the
  history of \<open>s\<close> followed by the new image, and the cursor to \<open>i + 1\<close>. An edit that
  settles with a failure leaves the history and the cursor of \<open>t\<close> untouched.
\<close>

theorem settled_edit_commits_on_captured_history:
  "(handleEdit_begin s = (s', Some k)
    \<longrightarrow> history (handleEdit_resume k (Inr res) t)
          = take (nat (currentIndex s) + 1) (history s) @ [imageUrl res]
        \<and> currentIndex (handleEdit_resume k (Inr res) t) = currentIndex s + 1)
   \<and> history (handleEdit_resume k (Inl err) t) = history t
   \<and> currentIndex (handleEdit_resume k (Inl err) t) = currentIndex t"
proof (intro conjI impI)
  show "history (handleEdit_resume k (Inl err) t) = history t"
    and "currentIndex (handleEdit_resume k (Inl err) t) = currentIndex t"
    by (simp_all add: handleEdit_resume_failure)
next
  assume "handleEdit_begin s = (s', Some k)"
  from handleEdit_begin_started [OF this]
  have k: "c_history k = history s" "c_currentIndex k = currentIndex s"
    and i: "0 \<le> currentIndex s" "currentIndex s < int (length (history s))"
    by simp_all
  have "slice0 (history s) (currentIndex s + 1) = take (nat (currentIndex s) + 1) (history s)"
    using i by (rule slice0_valid)
  then show "history (handleEdit_resume k (Inr res) t)
         = take (nat (currentIndex s) + 1) (history s) @ [imageUrl res]"
    and "currentIndex (handleEdit_resume k (Inr res) t) = currentIndex s + 1"
    using k i by (simp_all add: handleEdit_resume_def commitCaptured_def Let_def)
qed

theorem settled_edit_commits_on_captured_history_witness:
  "(let s = \<lparr>history = [''data:image/png;base64,A'', ''data:image/png;base64,B''],
             currentIndex = 0, prompt = ''add a hat'', isLoading = False, error = None,
             loadingMessage = []\<rparr>;
        k = \<lparr>c_history = [''data:image/png;base64,A'', ''data:image/png;base64,B''],
             c_currentIndex = 0, c_currentImageUrl = ''data:image/png;base64,A'',
             c_prompt = ''add a hat''\<rparr>;
        r = handleEdit_resume k (Inr \<lparr>imageUrl = ''data:image/png;base64,C'', text' = []\<rparr>)
              initial
    in snd (handleEdit_begin s) = Some k
       \<and> history r = [''data:image/png;base64,A'', ''data:image/png;base64,C'']
       \<and> currentIndex r = 1)"
  using settled_edit_commits_on_captured_history
    [of "\<lparr>history = [''data:image/png;base64,A'', ''data:image/png;base64,B''],
          currentIndex = 0, prompt = ''add a hat'', isLoading = False, error = None,
          loadingMessage = []\<rparr>"
        "fst (handleEdit_begin
           \<lparr>history = [''data:image/png;base64,A'', ''data:image/png;base64,B''],
            currentIndex = 0, prompt = ''add a hat'', isLoading = False, error = None,
            loadingMessage = []\<rparr>)"
        "\<lparr>c_history = [''data:image/png;base64,A'', ''data:image/png;base64,B''],
          c_currentIndex = 0, c_currentImageUrl = ''data:image/png;base64,A'',
          c_prompt = ''add a hat''\<rparr>"
        "\<lparr>imageUrl = ''data:image/png;base64,C'', text' = []\<rparr>" initial]
  by (simp add: Let_def handleEdit_begin_def currentImageUrl_def jsIndex_def trimIsEmpty_def
      whiteSpace_def)

text \<open>
  C10 as stated fails. In the sample run the edit of the old image is in flight when
  the new image arrives; after the reset the history is the new image alone; when the
  edit settles, its result is committed: the history becomes the old image followed by
  the edited one, and the new image is gone.
\<close>

theorem stale_edit_is_committed_counterexample:
  "snd (handleEdit_begin editing) = Some pendingEdit
   \<and> history afterReset = [sampleNew] \<and> currentIndex afterReset = 0
   \<and> history afterSettle = [sampleOld, sampleEdited] \<and> currentIndex afterSettle = 1
   \<and> sampleEdited \<in> set (history afterSettle) \<and> sampleNew \<notin> set (history afterSettle)"
  by (simp add: afterSettle_def afterReset_def pendingEdit_def editing_def onChange_def
      processImage_def processImage_resume_def processImage_begin_def initial_def
      handleEdit_begin_def handleEdit_resume_def commitCaptured_def slice0_def Let_def
      currentImageUrl_def jsIndex_def trimIsEmpty_def whiteSpace_def
      sampleOld_def sampleNew_def sampleEdited_def)

end
